theory Spec2Isabelle
  imports Main "HOL-Library.Word" "HOL-Library.Sublist"
begin

unbundle bit_operations_syntax

section \<open>Python exceptions\<close>

text \<open>
  Every exception the embedded functions can raise is a value. \<open>External\<close> stands for an
  exception raised inside a collaborator whose code is outside the embedded files
  (Tracer, Server, Client, Configuration, ...), with its message.
\<close>

datatype error =
    AssertionError
  | ValueError string
  | RuntimeError string
  | AttributeError string
  | TypeError string
  | KeyError string
  | External string

section \<open>The reference rounding function of the end-to-end fixture generator\<close>

text \<open>
  \<^verbatim>\<open>end_to_end_round_gen.py\<close>, function \<^verbatim>\<open>round(val, p_start, p_end, signed=False)\<close>.
  Python integers are unbounded (\<open>int\<close>); \<^verbatim>\<open><<\<close> and \<^verbatim>\<open>>>\<close> raise
  \<^verbatim>\<open>ValueError: negative shift count\<close> on a negative count, which is a branch here.
\<close>

definition py_lshift :: "int \<Rightarrow> int \<Rightarrow> error + int" where
  "py_lshift a n =
     (if n < 0 then Inl (ValueError ''negative shift count'') else Inr (push_bit (nat n) a))"

definition py_rshift :: "int \<Rightarrow> int \<Rightarrow> error + int" where
  "py_rshift a n =
     (if n < 0 then Inl (ValueError ''negative shift count'') else Inr (drop_bit (nat n) a))"

definition round_py :: "int \<Rightarrow> int \<Rightarrow> int \<Rightarrow> bool \<Rightarrow> error + int" where
  "round_py val p_start p_end is_signed =
     (let p_delta = p_start - p_end in
      case py_lshift 1 (p_delta - 1) of Inl e \<Rightarrow> Inl e
      | Inr carry_mask \<Rightarrow>
      (case (if val AND carry_mask \<noteq> 0
             then (case py_lshift carry_mask 1 of Inl e \<Rightarrow> Inl e | Inr c \<Rightarrow> Inr (val + c))
             else Inr val) of Inl e \<Rightarrow> Inl e
       | Inr val' \<Rightarrow>
       (case py_rshift val' p_delta of Inl e \<Rightarrow> Inl e
        | Inr output \<Rightarrow>
          if is_signed
          then (case py_lshift 1 (p_end - 1) of Inl e \<Rightarrow> Inl e
                | Inr bound \<Rightarrow> if output \<ge> bound then Inr (- output) else Inr output)
          else Inr output)))"

text \<open>
  The half-up-carry rule in the words of the specification: add half of the dropped
  range, then take the floor of the division by \<open>2 ^ d\<close>, where \<open>d\<close> is the number of
  dropped bits.
\<close>

definition half_up_carry_spec :: "int \<Rightarrow> nat \<Rightarrow> int" where
  "half_up_carry_spec val d = (val + 2 ^ (d - 1)) div 2 ^ d"

section \<open>Stateful, fallible operations\<close>

text \<open>
  An operation that may raise and may change state: it takes the state and returns either
  the exception or the result, together with the state it leaves behind. The state \<open>'s\<close>
  of the collaborators (keys of a client, contents of debug artifacts, adjusted rounders,
  the compilation session) is not under the embedded files and stays a type parameter.
\<close>

type_synonym ('r, 's) act = "'s \<Rightarrow> (error + 'r) \<times> 's"

definition act_return :: "'r \<Rightarrow> ('r, 's) act" where
  "act_return x s = (Inr x, s)"

definition act_raise :: "error \<Rightarrow> ('r, 's) act" where
  "act_raise e s = (Inl e, s)"

definition act_bind :: "('r, 's) act \<Rightarrow> ('r \<Rightarrow> ('q, 's) act) \<Rightarrow> ('q, 's) act" where
  "act_bind m f s = (case m s of (Inl e, s') \<Rightarrow> (Inl e, s') | (Inr x, s') \<Rightarrow> f x s')"

text \<open>A pure computation that may raise, run as an operation.\<close>

definition act_of :: "error + 'r \<Rightarrow> ('r, 's) act" where
  "act_of r s = (r, s)"

section \<open>Python values\<close>

text \<open>
  The values that flow through the embedded functions: \<^verbatim>\<open>None\<close>, a tuple, or any other
  object (an integer, an array, an encrypted \<^verbatim>\<open>Value\<close>, ...), which is opaque here.
  \<^verbatim>\<open>isinstance(x, tuple)\<close> is \<open>is_tuple\<close>.
\<close>

datatype 'o pyval = PyNone | Obj 'o | PyTuple "'o pyval list"

fun is_tuple :: "'o pyval \<Rightarrow> bool" where
  "is_tuple (PyTuple xs) = True"
| "is_tuple v = False"

section \<open>program.py: Program and ProgramCircuit\<close>

text \<open>
  \<^verbatim>\<open>Configuration\<close> is declared outside the embedded files; the record has the options the
  embedded functions read.
\<close>

record Configuration =
  fhe_simulation :: bool
  fhe_execution :: bool
  composable :: bool
  use_insecure_key_cache :: bool
  enable_unsafe_features :: bool
  insecure_key_cache_location :: "string option"
  auto_adjust_rounders :: bool
  auto_adjust_truncators :: bool
  dump_artifacts_on_unexpected_failures :: bool

text \<open>
  The two runtime tuples: \<^verbatim>\<open>ExecutionRt(client, server)\<close> and \<^verbatim>\<open>SimulationRt(server)\<close>.
  Clients and servers are opaque objects.
\<close>

datatype 'o rt = ExecutionRt 'o 'o | SimulationRt 'o

record ('o, 'g) ProgramCircuit =
  pc_name :: string
  pc_rt :: "'o rt"
  pc_graph :: 'g

text \<open>
  The collaborators of \<^verbatim>\<open>ProgramCircuit\<close> and \<^verbatim>\<open>Program\<close>, all declared outside the embedded
  files: \<^verbatim>\<open>Client\<close>, \<^verbatim>\<open>Server\<close>, \<^verbatim>\<open>validate_input_args\<close>, \<^verbatim>\<open>SimulatedValueExporter\<close>,
  \<^verbatim>\<open>SimulatedValueDecrypter\<close> and \<^verbatim>\<open>Value\<close>. Each is a parameter. A keyword argument
  \<^verbatim>\<open>circuit_name\<close> is the last \<open>string\<close> argument; \<^verbatim>\<open>evaluation_keys\<close> is optional.
  \<open>exporter_export\<close> stands for \<^verbatim>\<open>Value(exporter.export_tensor(...))\<close> or
  \<^verbatim>\<open>Value(exporter.export_scalar(...))\<close> (the choice looks at the numpy shape of the
  argument), \<open>decrypter_decrypt\<close> for \<^verbatim>\<open>decrypter.decrypt(position, result.inner)\<close>.
\<close>

record ('o, 's) runtime =
  Client_encrypt :: "'o \<Rightarrow> 'o pyval list \<Rightarrow> string \<Rightarrow> ('o pyval, 's) act"
  Client_decrypt :: "'o \<Rightarrow> 'o pyval list \<Rightarrow> string \<Rightarrow> ('o pyval, 's) act"
  Client_evaluation_keys :: "'o \<Rightarrow> ('o, 's) act"
  Client_new :: "'o \<Rightarrow> string option \<Rightarrow> ('o, 's) act"
  Server_create :: "'o \<Rightarrow> Configuration \<Rightarrow> bool \<Rightarrow> 'o \<Rightarrow> ('o, 's) act"
  Server_run :: "'o \<Rightarrow> 'o pyval list \<Rightarrow> 'o option \<Rightarrow> string \<Rightarrow> ('o pyval, 's) act"
  Server_client_specs :: "'o \<Rightarrow> 'o"
  ClientSpecs_client_parameters :: "'o \<Rightarrow> 'o"
  validate_input_args :: "'o \<Rightarrow> 'o pyval list \<Rightarrow> string \<Rightarrow> ('o pyval list, 's) act"
  SimulatedValueExporter_new :: "'o \<Rightarrow> string \<Rightarrow> ('o, 's) act"
  exporter_export :: "'o \<Rightarrow> nat \<Rightarrow> 'o pyval \<Rightarrow> ('o pyval, 's) act"
  SimulatedValueDecrypter_new :: "'o \<Rightarrow> string \<Rightarrow> ('o, 's) act"
  decrypter_decrypt :: "'o \<Rightarrow> nat \<Rightarrow> 'o pyval \<Rightarrow> ('o pyval, 's) act"

subsection \<open>ProgramCircuit\<close>

text \<open>
  The list comprehension of \<^verbatim>\<open>simulate\<close> over \<^verbatim>\<open>enumerate(ordered_validated_args)\<close>:
  \<^verbatim>\<open>None\<close> stays \<^verbatim>\<open>None\<close>, every other argument is exported at its position.
\<close>

fun export_args ::
  "('o, 's) runtime \<Rightarrow> 'o \<Rightarrow> nat \<Rightarrow> 'o pyval list \<Rightarrow> ('o pyval list, 's) act" where
  "export_args R exporter position [] = act_return []"
| "export_args R exporter position (arg # args) =
     act_bind (if arg = PyNone then act_return PyNone else exporter_export R exporter position arg)
       (\<lambda>v. act_bind (export_args R exporter (Suc position) args)
         (\<lambda>vs. act_return (v # vs)))"

text \<open>The generator of \<^verbatim>\<open>simulate\<close> over \<^verbatim>\<open>enumerate(results)\<close>.\<close>

fun decrypt_results ::
  "('o, 's) runtime \<Rightarrow> 'o \<Rightarrow> nat \<Rightarrow> 'o pyval list \<Rightarrow> ('o pyval list, 's) act" where
  "decrypt_results R decrypter position [] = act_return []"
| "decrypt_results R decrypter position (result # results) =
     act_bind (decrypter_decrypt R decrypter position result)
       (\<lambda>v. act_bind (decrypt_results R decrypter (Suc position) results)
         (\<lambda>vs. act_return (v # vs)))"

definition simulate ::
  "('o, 's) runtime \<Rightarrow> ('o, 'g) ProgramCircuit \<Rightarrow> 'o pyval list \<Rightarrow> ('o pyval, 's) act" where
  "simulate R self args =
     (case pc_rt self of
        ExecutionRt client server \<Rightarrow> act_raise AssertionError
      | SimulationRt server \<Rightarrow>
          act_bind (validate_input_args R (Server_client_specs R server) args (pc_name self))
            (\<lambda>ordered_validated_args.
          act_bind (SimulatedValueExporter_new R
                      (ClientSpecs_client_parameters R (Server_client_specs R server))
                      (pc_name self))
            (\<lambda>exporter.
          act_bind (export_args R exporter 0 ordered_validated_args)
            (\<lambda>exported.
          act_bind (Server_run R server exported None (pc_name self))
            (\<lambda>results.
          act_bind (SimulatedValueDecrypter_new R
                      (ClientSpecs_client_parameters R (Server_client_specs R server))
                      (pc_name self))
            (\<lambda>decrypter.
          act_bind (decrypt_results R decrypter 0
                      (case results of PyTuple rs \<Rightarrow> rs | r \<Rightarrow> [r]))
            (\<lambda>decrypted.
          act_return (if length decrypted \<noteq> 1 then PyTuple decrypted else hd decrypted))))))))"

definition encrypt ::
  "('o, 's) runtime \<Rightarrow> ('o, 'g) ProgramCircuit \<Rightarrow> 'o pyval list \<Rightarrow> ('o pyval, 's) act" where
  "encrypt R self args =
     (case pc_rt self of
        SimulationRt server \<Rightarrow> act_raise AssertionError
      | ExecutionRt client server \<Rightarrow> Client_encrypt R client args (pc_name self))"

definition run ::
  "('o, 's) runtime \<Rightarrow> ('o, 'g) ProgramCircuit \<Rightarrow> 'o pyval list \<Rightarrow> ('o pyval, 's) act" where
  "run R self args =
     (case pc_rt self of
        SimulationRt server \<Rightarrow> act_raise AssertionError
      | ExecutionRt client server \<Rightarrow>
          act_bind (Client_evaluation_keys R client)
            (\<lambda>evaluation_keys. Server_run R server args (Some evaluation_keys) (pc_name self)))"

definition decrypt ::
  "('o, 's) runtime \<Rightarrow> ('o, 'g) ProgramCircuit \<Rightarrow> 'o pyval list \<Rightarrow> ('o pyval, 's) act" where
  "decrypt R self results =
     (case pc_rt self of
        SimulationRt server \<Rightarrow> act_raise AssertionError
      | ExecutionRt client server \<Rightarrow> Client_decrypt R client results (pc_name self))"

text \<open>
  \<^verbatim>\<open>return self.decrypt(self.run(self.encrypt(*args)))\<close>: Python evaluates the innermost
  call first, and each result is the single positional argument of the next call.
\<close>

definition encrypt_run_decrypt ::
  "('o, 's) runtime \<Rightarrow> ('o, 'g) ProgramCircuit \<Rightarrow> 'o pyval list \<Rightarrow> ('o pyval, 's) act" where
  "encrypt_run_decrypt R self args =
     act_bind (encrypt R self args)
       (\<lambda>encrypted. act_bind (run R self [encrypted])
         (\<lambda>evaluated. decrypt R self [evaluated]))"

text \<open>
  What a caller does who composes the three public operations by hand, one statement
  after the other, with nothing else in between:
  \<^verbatim>\<open>e = c.encrypt(*args); r = c.run(e); d = c.decrypt(r)\<close>.
\<close>

definition composed_by_hand ::
  "('o, 's) runtime \<Rightarrow> ('o, 'g) ProgramCircuit \<Rightarrow> 'o pyval list \<Rightarrow> ('o pyval, 's) act" where
  "composed_by_hand R c args s0 =
     (case encrypt R c args s0 of
        (Inl err, s1) \<Rightarrow> (Inl err, s1)
      | (Inr e, s1) \<Rightarrow>
          (case run R c [e] s1 of
             (Inl err, s2) \<Rightarrow> (Inl err, s2)
           | (Inr r, s2) \<Rightarrow> decrypt R c [r] s2))"

subsection \<open>Program\<close>

record ('o, 'g) Program =
  prog_configuration :: Configuration
  prog_graphs :: "(string \<times> 'g) list"
  prog_mlir_module :: 'o
  prog_compilation_context :: 'o
  prog_rt :: "'o rt"

text \<open>
  \<^verbatim>\<open>Program.__init__\<close>. The first statement is
  \<^verbatim>\<open>assert configuration and (configuration.fhe_simulation or configuration.fhe_execution)\<close>;
  after it the configuration is not \<^verbatim>\<open>None\<close>, so the fallback \<^verbatim>\<open>Configuration()\<close> of the
  next statement is never taken. \<^verbatim>\<open>assert_that\<close> raises \<^verbatim>\<open>AssertionError\<close> on a false
  condition.
\<close>

definition Program_init ::
  "('o, 's) runtime \<Rightarrow> (string \<times> 'g) list \<Rightarrow> 'o \<Rightarrow> 'o \<Rightarrow> Configuration option
     \<Rightarrow> (('o, 'g) Program, 's) act" where
  "Program_init R graphs mlir compilation_context configuration =
     (case configuration of
        None \<Rightarrow> act_raise AssertionError
      | Some cfg \<Rightarrow>
          if \<not> (fhe_simulation cfg \<or> fhe_execution cfg) then act_raise AssertionError
          else if fhe_simulation cfg
          then act_bind (Server_create R mlir cfg True compilation_context)
                 (\<lambda>server. act_return
                    \<lparr>prog_configuration = cfg, prog_graphs = graphs, prog_mlir_module = mlir,
                     prog_compilation_context = compilation_context,
                     prog_rt = SimulationRt server\<rparr>)
          else act_bind (Server_create R mlir cfg False compilation_context)
                 (\<lambda>server.
               act_bind (if use_insecure_key_cache cfg
                         then (if \<not> enable_unsafe_features cfg then act_raise AssertionError
                               else if insecure_key_cache_location cfg = None
                               then act_raise AssertionError
                               else act_return (insecure_key_cache_location cfg))
                         else act_return None)
                 (\<lambda>keyset_cache_directory.
               act_bind (Client_new R (Server_client_specs R server) keyset_cache_directory)
                 (\<lambda>client. act_return
                    \<lparr>prog_configuration = cfg, prog_graphs = graphs, prog_mlir_module = mlir,
                     prog_compilation_context = compilation_context,
                     prog_rt = ExecutionRt client server\<rparr>))))"

text \<open>\<^verbatim>\<open>Program.__getattr__\<close>: the circuit of that name, on the program's own runtime.\<close>

definition Program_getattr ::
  "('o, 'g) Program \<Rightarrow> string \<Rightarrow> error + ('o, 'g) ProgramCircuit" where
  "Program_getattr self item =
     (case map_of (prog_graphs self) item of
        None \<Rightarrow> Inl (AttributeError (''No attribute '' @ item))
      | Some graph \<Rightarrow> Inr \<lparr>pc_name = item, pc_rt = prog_rt self, pc_graph = graph\<rparr>)"

section \<open>program_compiler.py: CircuitDef\<close>

datatype EncryptionStatus = CLEAR | ENCRYPTED

text \<open>
  A Python function, as far as the embedded code looks at it: \<^verbatim>\<open>function.__name__\<close>, the
  names in \<^verbatim>\<open>inspect.signature(function).parameters\<close> in their order, and the callable
  itself, which only collaborators run.
\<close>

record 'o PyFunction =
  fn_name :: string
  fn_parameters :: "string list"
  fn_object :: 'o

record ('o, 'g) CircuitDef =
  cd_name :: string
  cd_function :: "'o PyFunction"
  cd_parameter_encryption_statuses :: "(string \<times> EncryptionStatus) list"
  cd_inputset :: "'o pyval list"
  cd_graph :: "'g option"
  cd_artifacts :: "'o option"
  cd_is_direct :: bool
  cd_parameter_values :: "(string \<times> 'o) list"

text \<open>
  The collaborators of \<^verbatim>\<open>CircuitDef\<close>, declared outside the embedded files. Graphs (\<open>'g\<close>)
  and bounds (\<open>'b\<close>) are values: \<open>fuse\<close> and \<open>Graph_update_with_bounds\<close>, which change
  the graph in place, return the graph they leave. \<open>EncryptionStatus_of\<close> is
  \<^verbatim>\<open>EncryptionStatus(status.lower())\<close>; \<open>py_iter\<close> iterates an object that is not a
  tuple; \<open>Graph_call\<close> is \<^verbatim>\<open>graph(*args)\<close>. \<open>repr\<close> is Python's built-in of that name on
  strings, which picks the quotes and the escapes from the characters of its argument.
\<close>

record ('o, 'g, 'b, 's) circuit_env =
  repr :: "string \<Rightarrow> string"
  EncryptionStatus_of :: "string \<Rightarrow> error + EncryptionStatus"
  ValueDescription_of :: "'o pyval \<Rightarrow> bool \<Rightarrow> error + 'o"
  py_iter :: "'o pyval \<Rightarrow> error + 'o pyval list"
  Tracer_trace :: "'o PyFunction \<Rightarrow> (string \<times> 'o) list \<Rightarrow> bool \<Rightarrow> ('g, 's) act"
  fuse :: "'g \<Rightarrow> 'o option \<Rightarrow> ('g, 's) act"
  AutoRounder_adjust :: "'o PyFunction \<Rightarrow> 'o pyval list \<Rightarrow> (unit, 's) act"
  AutoTruncator_adjust :: "'o PyFunction \<Rightarrow> 'o pyval list \<Rightarrow> (unit, 's) act"
  Graph_measure_bounds :: "'g \<Rightarrow> 'o pyval list \<Rightarrow> ('b, 's) act"
  Graph_update_with_bounds :: "'g \<Rightarrow> 'b \<Rightarrow> ('g, 's) act"
  Graph_call :: "'g \<Rightarrow> 'o pyval list \<Rightarrow> ('o pyval, 's) act"
  artifacts_add_source_code :: "'o \<Rightarrow> 'o PyFunction \<Rightarrow> (unit, 's) act"
  artifacts_add_parameter_encryption_status ::
    "'o \<Rightarrow> string \<Rightarrow> EncryptionStatus \<Rightarrow> (unit, 's) act"
  artifacts_add_graph :: "'o \<Rightarrow> string \<Rightarrow> 'g \<Rightarrow> (unit, 's) act"

subsection \<open>Strings of the error messages\<close>

text \<open>Python's \<^verbatim>\<open>str\<close> of a non-negative integer, as an f-string prints it.\<close>

fun str_nat :: "nat \<Rightarrow> string" where
  "str_nat n =
     (if n < 10 then [''0123456789'' ! n]
      else str_nat (n div 10) @ [''0123456789'' ! (n mod 10)])"

declare str_nat.simps [simp del]

text \<open>
  The text built from a non-empty list of names: the first, then \<^verbatim>\<open>", "\<close> and each of
  \<^verbatim>\<open>args[1:-1]\<close>, then \<^verbatim>\<open>" and "\<close> and the last when there is more than one.
\<close>

definition parameter_str :: "('o, 'g, 'b, 's) circuit_env \<Rightarrow> string list \<Rightarrow> string" where
  "parameter_str E args =
     repr E (hd args)
     @ concat (map (\<lambda>arg. '', '' @ repr E arg) (butlast (tl args)))
     @ (if length args \<noteq> 1 then '' and '' @ repr E (last args) else [])"

definition missing_message ::
  "('o, 'g, 'b, 's) circuit_env \<Rightarrow> string list \<Rightarrow> string \<Rightarrow> string" where
  "missing_message E missing_args function_name =
     ''Encryption status'' @ (if length missing_args > 1 then ''es'' else [])
     @ '' of parameter'' @ (if length missing_args > 1 then ''s'' else []) @ '' ''
     @ parameter_str E missing_args @ '' of function ''
     @ [CHR 0x27] @ function_name @ [CHR 0x27] @ '' ''
     @ (if length missing_args > 1 then ''are'' else ''is'') @ '' not provided''"

definition additional_message ::
  "('o, 'g, 'b, 's) circuit_env \<Rightarrow> string list \<Rightarrow> string \<Rightarrow> string" where
  "additional_message E additional_args function_name =
     ''Encryption status'' @ (if length additional_args > 1 then ''es'' else [])
     @ '' of '' @ parameter_str E additional_args @ '' ''
     @ (if length additional_args > 1 then ''are'' else ''is'') @ '' provided but ''
     @ (if length additional_args > 1 then ''they are'' else ''it is'')
     @ '' not a parameter of function '' @ [CHR 0x27] @ function_name @ [CHR 0x27]"

definition arity_text :: "nat \<Rightarrow> string" where
  "arity_text n =
     (if n = 1 then ''a single value'' else ''a tuple of '' @ str_nat n @ '' values'')"

definition malformed_message :: "nat \<Rightarrow> nat \<Rightarrow> nat \<Rightarrow> string" where
  "malformed_message index expected actual =
     ''Input #'' @ str_nat index @ '' of your inputset is not well formed (expected ''
     @ arity_text expected @ '' got '' @ arity_text actual @ '')''"

definition no_inputset_message :: "string \<Rightarrow> string \<Rightarrow> string" where
  "no_inputset_message action function_name =
     action @ '' function '' @ [CHR 0x27] @ function_name @ [CHR 0x27]
     @ '' without an inputset is not supported''"

subsection \<open>CircuitDef.__init__\<close>

text \<open>\<^verbatim>\<open>list.remove(x)\<close> removes the first occurrence and raises when there is none.\<close>

fun list_remove :: "string \<Rightarrow> string list \<Rightarrow> error + string list" where
  "list_remove x [] = Inl (ValueError ''list.remove(x): x not in list'')"
| "list_remove x (y # ys) =
     (if x = y then Inr ys
      else (case list_remove x ys of Inl e \<Rightarrow> Inl e | Inr zs \<Rightarrow> Inr (y # zs)))"

text \<open>
  Both loops of the constructor have this shape:
  \<^verbatim>\<open>for arg in keys: if arg in container: remaining.remove(arg)\<close>.
\<close>

fun remove_present :: "string list \<Rightarrow> string list \<Rightarrow> string list \<Rightarrow> error + string list" where
  "remove_present [] container remaining = Inr remaining"
| "remove_present (arg # args) container remaining =
     (if arg \<in> set container
      then (case list_remove arg remaining of
              Inl e \<Rightarrow> Inl e
            | Inr remaining' \<Rightarrow> remove_present args container remaining')
      else remove_present args container remaining)"

text \<open>The dictionary comprehension that converts every declared status, in order.\<close>

fun convert_statuses ::
  "('o, 'g, 'b, 's) circuit_env \<Rightarrow> (string \<times> string) list
     \<Rightarrow> error + (string \<times> EncryptionStatus) list" where
  "convert_statuses E [] = Inr []"
| "convert_statuses E ((param, status) # rest) =
     (case EncryptionStatus_of E status of
        Inl e \<Rightarrow> Inl e
      | Inr st \<Rightarrow>
          (case convert_statuses E rest of
             Inl e \<Rightarrow> Inl e
           | Inr sts \<Rightarrow> Inr ((param, st) # sts)))"

definition CircuitDef_init ::
  "('o, 'g, 'b, 's) circuit_env \<Rightarrow> 'o PyFunction \<Rightarrow> (string \<times> string) list
     \<Rightarrow> error + ('o, 'g) CircuitDef" where
  "CircuitDef_init E function parameter_encryption_statuses =
     (case remove_present (map fst parameter_encryption_statuses) (fn_parameters function)
             (fn_parameters function) of
        Inl e \<Rightarrow> Inl e
      | Inr missing_args \<Rightarrow>
          if length missing_args \<noteq> 0
          then Inl (ValueError (missing_message E missing_args (fn_name function)))
          else
            (case remove_present (fn_parameters function)
                    (map fst parameter_encryption_statuses)
                    (map fst parameter_encryption_statuses) of
               Inl e \<Rightarrow> Inl e
             | Inr additional_args \<Rightarrow>
                 if length additional_args \<noteq> 0
                 then Inl (ValueError (additional_message E additional_args (fn_name function)))
                 else
                   (case convert_statuses E parameter_encryption_statuses of
                      Inl e \<Rightarrow> Inl e
                    | Inr statuses \<Rightarrow>
                        Inr \<lparr>cd_name = fn_name function, cd_function = function,
                             cd_parameter_encryption_statuses = statuses,
                             cd_inputset = [], cd_graph = None, cd_artifacts = None,
                             cd_is_direct = False, cd_parameter_values = []\<rparr>)))"

subsection \<open>Methods: the object is part of the state\<close>

text \<open>
  A method runs on the pair of its object and the collaborators' state, so that what it
  assigns to \<^verbatim>\<open>self\<close> before raising is still there after the exception.
\<close>

definition ext :: "('r, 's) act \<Rightarrow> ('r, 'c \<times> 's) act" where
  "ext m = (\<lambda>(self, s). case m s of (r, s') \<Rightarrow> (r, (self, s')))"

definition get_self :: "('c, 'c \<times> 's) act" where
  "get_self = (\<lambda>(self, s). (Inr self, (self, s)))"

definition modify_self :: "('c \<Rightarrow> 'c) \<Rightarrow> (unit, 'c \<times> 's) act" where
  "modify_self f = (\<lambda>(self, s). (Inr (), (f self, s)))"

text \<open>A method keeps a field of its object when no run of it, returning or raising,
  changes the field.\<close>

definition keeps :: "('c \<Rightarrow> 'x) \<Rightarrow> ('r, 'c \<times> 's) act \<Rightarrow> bool" where
  "keeps field m \<longleftrightarrow>
     (\<forall>self s r self' s'. m (self, s) = (r, (self', s')) \<longrightarrow> field self' = field self)"

subsection \<open>CircuitDef._trace\<close>

text \<open>
  The first argument of \<^verbatim>\<open>zip\<close>: the sample itself when there are several parameters or
  the sample is a tuple, else the one-element tuple of it. A sample that is not a tuple is
  iterated by Python where several parameters are declared.
\<close>

definition sample_items ::
  "('o, 'g, 'b, 's) circuit_env \<Rightarrow> nat \<Rightarrow> 'o pyval \<Rightarrow> error + 'o pyval list" where
  "sample_items E n sample =
     (if n > 1 \<or> is_tuple sample
      then (case sample of PyTuple items \<Rightarrow> Inr items | v \<Rightarrow> py_iter E v)
      else Inr [sample])"

fun describe_parameters ::
  "('o, 'g, 'b, 's) circuit_env \<Rightarrow> ('o pyval \<times> string \<times> EncryptionStatus) list
     \<Rightarrow> error + (string \<times> 'o) list" where
  "describe_parameters E [] = Inr []"
| "describe_parameters E ((arg, param, status) # rest) =
     (case ValueDescription_of E arg (status = ENCRYPTED) of
        Inl e \<Rightarrow> Inl e
      | Inr d \<Rightarrow>
          (case describe_parameters E rest of
             Inl e \<Rightarrow> Inl e
           | Inr ds \<Rightarrow> Inr ((param, d) # ds)))"

fun add_statuses ::
  "('o, 'g, 'b, 's) circuit_env \<Rightarrow> 'o \<Rightarrow> (string \<times> EncryptionStatus) list \<Rightarrow> (unit, 's) act" where
  "add_statuses E artifacts [] = act_return ()"
| "add_statuses E artifacts ((param, status) # rest) =
     act_bind (artifacts_add_parameter_encryption_status E artifacts param status)
       (\<lambda>_. add_statuses E artifacts rest)"

definition CircuitDef_trace ::
  "('o, 'g, 'b, 's) circuit_env \<Rightarrow> 'o pyval \<Rightarrow> (unit, ('o, 'g) CircuitDef \<times> 's) act" where
  "CircuitDef_trace E sample =
     act_bind get_self (\<lambda>self.
     act_bind (case cd_artifacts self of
                 None \<Rightarrow> act_return ()
               | Some artifacts \<Rightarrow>
                   ext (act_bind (artifacts_add_source_code E artifacts (cd_function self))
                         (\<lambda>_. add_statuses E artifacts
                                 (cd_parameter_encryption_statuses self)))) (\<lambda>_.
     act_bind (act_of (sample_items E (length (cd_parameter_encryption_statuses self))
                         sample)) (\<lambda>items.
     act_bind (act_of (describe_parameters E
                         (zip items (cd_parameter_encryption_statuses self)))) (\<lambda>parameters.
     act_bind (ext (Tracer_trace E (cd_function self) parameters False)) (\<lambda>graph.
     act_bind (modify_self (\<lambda>self. self\<lparr>cd_graph := Some graph\<rparr>)) (\<lambda>_.
     act_bind (case cd_artifacts self of
                 None \<Rightarrow> act_return ()
               | Some artifacts \<Rightarrow> ext (artifacts_add_graph E artifacts ''initial'' graph)) (\<lambda>_.
     act_bind (ext (fuse E graph (cd_artifacts self))) (\<lambda>fused.
     modify_self (\<lambda>self. self\<lparr>cd_graph := Some fused\<rparr>)))))))))"

subsection \<open>CircuitDef._evaluate\<close>

text \<open>
  The items of a sample after \<^verbatim>\<open>if not isinstance(sample, tuple): sample = (sample,)\<close>;
  \<open>arity\<close> is the \<^verbatim>\<open>len\<close> of that tuple.
\<close>

fun as_tuple :: "'o pyval \<Rightarrow> 'o pyval list" where
  "as_tuple (PyTuple items) = items"
| "as_tuple v = [v]"

definition arity :: "'o pyval \<Rightarrow> nat" where
  "arity sample = length (as_tuple sample)"

text \<open>
  The loop \<^verbatim>\<open>for index, sample in enumerate(iter(inputset))\<close>: append, check the arity,
  and on a mismatch cut the inputset back to its length before the call and raise.
\<close>

fun append_inputset ::
  "nat \<Rightarrow> nat \<Rightarrow> 'o pyval list \<Rightarrow> (unit, ('o, 'g) CircuitDef \<times> 's) act" where
  "append_inputset previous_inputset_length index [] = act_return ()"
| "append_inputset previous_inputset_length index (sample # rest) =
     act_bind (modify_self (\<lambda>self. self\<lparr>cd_inputset := cd_inputset self @ [sample]\<rparr>)) (\<lambda>_.
     act_bind get_self (\<lambda>self.
     if arity sample \<noteq> length (cd_parameter_encryption_statuses self)
     then act_bind (modify_self (\<lambda>self. self\<lparr>cd_inputset :=
                       take previous_inputset_length (cd_inputset self)\<rparr>)) (\<lambda>_.
          act_raise (ValueError (malformed_message index
                       (length (cd_parameter_encryption_statuses self)) (arity sample))))
     else append_inputset previous_inputset_length (Suc index) rest))"

text \<open>The two statements that run the auto-tuners when the configuration asks for them.\<close>

definition auto_adjust ::
  "('o, 'g, 'b, 's) circuit_env \<Rightarrow> Configuration \<Rightarrow> 'o PyFunction \<Rightarrow> 'o pyval list
     \<Rightarrow> (unit, 's) act" where
  "auto_adjust E configuration function inputset =
     act_bind (if auto_adjust_rounders configuration
               then AutoRounder_adjust E function inputset else act_return ()) (\<lambda>_.
     if auto_adjust_truncators configuration
     then AutoTruncator_adjust E function inputset else act_return ())"

definition CircuitDef_evaluate ::
  "('o, 'g, 'b, 's) circuit_env \<Rightarrow> string \<Rightarrow> 'o pyval list option \<Rightarrow> Configuration \<Rightarrow> 'o
     \<Rightarrow> (unit, ('o, 'g) CircuitDef \<times> 's) act" where
  "CircuitDef_evaluate E action inputset configuration artifacts =
     act_bind get_self (\<lambda>self.
     if cd_is_direct self
     then
       act_bind (ext (Tracer_trace E (cd_function self) (cd_parameter_values self) True))
         (\<lambda>graph.
       act_bind (modify_self (\<lambda>self. self\<lparr>cd_graph := Some graph\<rparr>)) (\<lambda>_.
       act_bind (ext (artifacts_add_graph E artifacts ''initial'' graph)) (\<lambda>_.
       act_bind (ext (fuse E graph (Some artifacts))) (\<lambda>fused.
       act_bind (modify_self (\<lambda>self. self\<lparr>cd_graph := Some fused\<rparr>)) (\<lambda>_.
       ext (artifacts_add_graph E artifacts ''final'' fused))))))
     else
       act_bind (case inputset of
                   None \<Rightarrow> act_return ()
                 | Some samples \<Rightarrow> append_inputset (length (cd_inputset self)) 0 samples)
         (\<lambda>_.
       act_bind get_self (\<lambda>self.
       act_bind (ext (auto_adjust E configuration (cd_function self) (cd_inputset self)))
         (\<lambda>_.
       act_bind (case cd_graph self of
                   Some graph \<Rightarrow> act_return ()
                 | None \<Rightarrow>
                     (case cd_inputset self of
                        [] \<Rightarrow> act_raise (RuntimeError
                                (no_inputset_message action (fn_name (cd_function self))))
                      | first_sample # _ \<Rightarrow>
                          act_bind (CircuitDef_trace E first_sample) (\<lambda>_.
                          act_bind get_self (\<lambda>self.
                          if cd_graph self = None then act_raise AssertionError
                          else act_return ())))) (\<lambda>_.
       act_bind get_self (\<lambda>self.
       case cd_graph self of
         None \<Rightarrow> act_raise (AttributeError
                   ('''NoneType' object has no attribute 'measure_bounds'' @ [CHR 0x27]))
       | Some graph \<Rightarrow>
           act_bind (ext (Graph_measure_bounds E graph (cd_inputset self))) (\<lambda>bounds.
           act_bind (ext (Graph_update_with_bounds E graph bounds)) (\<lambda>updated.
           act_bind (modify_self (\<lambda>self. self\<lparr>cd_graph := Some updated\<rparr>)) (\<lambda>_.
           ext (artifacts_add_graph E artifacts ''final'' updated))))))))))"

subsection \<open>CircuitDef.__call__\<close>

definition CircuitDef_call ::
  "('o, 'g, 'b, 's) circuit_env \<Rightarrow> 'o pyval list \<Rightarrow> (string \<times> 'o pyval) list
     \<Rightarrow> ('o pyval, ('o, 'g) CircuitDef \<times> 's) act" where
  "CircuitDef_call E args kwargs =
     act_bind get_self (\<lambda>self.
     if length kwargs \<noteq> 0
     then act_raise (RuntimeError
            (''Calling function '' @ [CHR 0x27] @ fn_name (cd_function self) @ [CHR 0x27]
             @ '' with kwargs is not supported''))
     else
       act_bind (case cd_graph self of
                   Some graph \<Rightarrow> act_return ()
                 | None \<Rightarrow>
                     act_bind (CircuitDef_trace E
                                 (if length args = 1 then hd args else PyTuple args)) (\<lambda>_.
                     act_bind get_self (\<lambda>self.
                     if cd_graph self = None then act_raise AssertionError
                     else act_return ()))) (\<lambda>_.
       act_bind (modify_self (\<lambda>self. self\<lparr>cd_inputset := cd_inputset self
                    @ [if length args = 1 then hd args else PyTuple args]\<rparr>)) (\<lambda>_.
       act_bind get_self (\<lambda>self.
       case cd_graph self of
         None \<Rightarrow> act_raise (TypeError '''NoneType' object is not callable'')
       | Some graph \<Rightarrow> ext (Graph_call E graph args)))))"

section \<open>program_compiler.py: ProgramCompiler\<close>

text \<open>
  \<^verbatim>\<open>self.circuits\<close> is a dictionary from circuit names to circuit definitions, kept in
  insertion order. The class body annotates \<^verbatim>\<open>default_configuration\<close>, \<^verbatim>\<open>circuits\<close> and
  \<^verbatim>\<open>compilation_context\<close> without giving them a value; the constructor assigns
  \<^verbatim>\<open>configuration\<close>, \<^verbatim>\<open>circuits\<close> and \<^verbatim>\<open>compilation_context\<close>.
\<close>

record ('o, 'g) ProgramCompiler =
  pcomp_configuration :: Configuration
  pcomp_circuits :: "(string \<times> ('o, 'g) CircuitDef) list"
  pcomp_compilation_context :: 'o

text \<open>
  The further collaborators of \<^verbatim>\<open>ProgramCompiler\<close>. \<open>Configuration_defaults\<close> is what
  \<^verbatim>\<open>Configuration()\<close> builds; \<open>Configuration_fork\<close> is \<^verbatim>\<open>configuration.fork(**kwargs)\<close>;
  \<open>ProgramDebugArtifacts_circuits\<close> is \<^verbatim>\<open>program_artifacts.circuits[name]\<close>;
  \<open>mlir_str\<close> is \<^verbatim>\<open>str(mlir_module).strip()\<close>; \<open>client_parameters_serialize\<close> is
  \<^verbatim>\<open>client.specs.client_parameters.serialize()\<close>. The calls of \<^verbatim>\<open>DebugManager\<close> only
  print and are left out.
\<close>

record ('o, 'g, 's) compiler_env =
  Configuration_defaults :: Configuration
  Configuration_fork :: "Configuration \<Rightarrow> (string \<times> 'o pyval) list \<Rightarrow> error + Configuration"
  CompilationContext_new :: "('o, 's) act"
  CompilationContext_mlir_context :: "'o \<Rightarrow> ('o, 's) act"
  ProgramDebugArtifacts_new :: "string list \<Rightarrow> ('o, 's) act"
  ProgramDebugArtifacts_circuits :: "'o \<Rightarrow> string \<Rightarrow> ('o, 's) act"
  artifacts_add_mlir_to_compile :: "'o \<Rightarrow> string \<Rightarrow> (unit, 's) act"
  artifacts_add_client_parameters :: "'o \<Rightarrow> 'o \<Rightarrow> (unit, 's) act"
  artifacts_export :: "'o \<Rightarrow> (unit, 's) act"
  GraphConverter_convert_many :: "(string \<times> 'g) list \<Rightarrow> Configuration \<Rightarrow> 'o \<Rightarrow> ('o, 's) act"
  mlir_str :: "'o \<Rightarrow> string"
  client_parameters_serialize :: "'o \<Rightarrow> ('o, 's) act"

definition ProgramCompiler_init ::
  "('o, 'g, 's) compiler_env \<Rightarrow> (string \<times> ('o, 'g) CircuitDef) list
     \<Rightarrow> (('o, 'g) ProgramCompiler, 's) act" where
  "ProgramCompiler_init C circuits =
     act_bind (CompilationContext_new C) (\<lambda>compilation_context.
     act_return \<lparr>pcomp_configuration = (Configuration_defaults C)\<lparr>composable := True\<rparr>,
                 pcomp_circuits = circuits,
                 pcomp_compilation_context = compilation_context\<rparr>)"

text \<open>\<^verbatim>\<open>ProgramCompiler.__getattr__\<close>, which Python calls for a name that is neither an
  attribute of the object nor of its class.\<close>

definition ProgramCompiler_getattr ::
  "('o, 'g) ProgramCompiler \<Rightarrow> string \<Rightarrow> error + ('o, 'g) CircuitDef" where
  "ProgramCompiler_getattr self item =
     (case map_of (pcomp_circuits self) item of
        None \<Rightarrow> Inl (AttributeError (''No attribute '' @ item))
      | Some circuit \<Rightarrow> Inr circuit)"

text \<open>
  The first four statements of \<^verbatim>\<open>compile\<close>, which settle the configuration in effect.
  \<^verbatim>\<open>self.default_configuration\<close> is not an attribute of the object or of the class, so
  Python calls \<^verbatim>\<open>__getattr__\<close>; when a circuit has that name, the value is its
  \<^verbatim>\<open>CircuitDef\<close>, which has neither \<^verbatim>\<open>fork\<close> nor \<^verbatim>\<open>composable\<close>. \<^verbatim>\<open>deepcopy\<close> of a value
  is the value.
\<close>

definition effective_configuration ::
  "('o, 'g, 's) compiler_env \<Rightarrow> ('o, 'g) ProgramCompiler \<Rightarrow> Configuration option
     \<Rightarrow> (string \<times> 'o pyval) list \<Rightarrow> error + Configuration" where
  "effective_configuration C self configuration kwargs =
     (case configuration of
        Some given \<Rightarrow>
          (if length kwargs \<noteq> 0 then Configuration_fork C given kwargs else Inr given)
      | None \<Rightarrow>
          (case ProgramCompiler_getattr self ''default_configuration'' of
             Inl e \<Rightarrow> Inl e
           | Inr circuit \<Rightarrow>
               if length kwargs \<noteq> 0
               then Inl (AttributeError ('''CircuitDef' object has no attribute 'fork'' @ [CHR 0x27]))
               else Inl (AttributeError
                      ('''CircuitDef' object has no attribute 'composable'' @ [CHR 0x27]))))"

text \<open>Running a method of the circuit of a given name, inside a method of the compiler.\<close>

definition on_circuit ::
  "string \<Rightarrow> ('r, ('o, 'g) CircuitDef \<times> 's) act \<Rightarrow> ('r, ('o, 'g) ProgramCompiler \<times> 's) act" where
  "on_circuit name m =
     (\<lambda>(self, s).
        case map_of (pcomp_circuits self) name of
          None \<Rightarrow> (Inl (KeyError name), (self, s))
        | Some circuit \<Rightarrow>
            (case m (circuit, s) of
               (r, (circuit', s')) \<Rightarrow>
                 (r, (self\<lparr>pcomp_circuits :=
                          map (\<lambda>(n, c). if n = name then (n, circuit') else (n, c))
                            (pcomp_circuits self)\<rparr>, s'))))"

text \<open>
  \<^verbatim>\<open>inputsets[name]\<close>: \<^verbatim>\<open>inputsets\<close> may be \<^verbatim>\<open>None\<close> (a \<^verbatim>\<open>TypeError\<close>) or lack the name
  (a \<^verbatim>\<open>KeyError\<close>).
\<close>

definition inputset_of ::
  "(string \<times> 'o pyval list option) list option \<Rightarrow> string \<Rightarrow> error + 'o pyval list option" where
  "inputset_of inputsets name =
     (case inputsets of
        None \<Rightarrow> Inl (TypeError '''NoneType' object is not subscriptable'')
      | Some given \<Rightarrow>
          (case map_of given name of
             None \<Rightarrow> Inl (KeyError name)
           | Some inputset \<Rightarrow> Inr inputset))"

text \<open>The first loop of \<^verbatim>\<open>compile\<close>, over the names of the circuits.\<close>

fun evaluate_circuits ::
  "('o, 'g, 'b, 's) circuit_env \<Rightarrow> ('o, 'g, 's) compiler_env \<Rightarrow> string list
     \<Rightarrow> (string \<times> 'o pyval list option) list option \<Rightarrow> 'o
     \<Rightarrow> (unit, ('o, 'g) ProgramCompiler \<times> 's) act" where
  "evaluate_circuits E C [] inputsets program_artifacts = act_return ()"
| "evaluate_circuits E C (name # names) inputsets program_artifacts =
     act_bind get_self (\<lambda>self.
     act_bind (act_of (inputset_of inputsets name)) (\<lambda>inputset.
     act_bind (ext (ProgramDebugArtifacts_circuits C program_artifacts name))
       (\<lambda>circuit_artifacts.
     act_bind (on_circuit name
                 (CircuitDef_evaluate E ''Compiling'' inputset (pcomp_configuration self)
                    circuit_artifacts)) (\<lambda>_.
     act_bind (on_circuit name get_self) (\<lambda>circuit.
     if cd_graph circuit = None then act_raise AssertionError
     else evaluate_circuits E C names inputsets program_artifacts)))))"

text \<open>
  \<^verbatim>\<open>{name: circuit.graph for (name, circuit) in self.circuits.items()}\<close>. After the first
  loop every circuit has a graph, so no entry is left out.
\<close>

definition graphs_of :: "(string \<times> ('o, 'g) CircuitDef) list \<Rightarrow> (string \<times> 'g) list" where
  "graphs_of circuits =
     concat (map (\<lambda>(name, circuit).
                    case cd_graph circuit of None \<Rightarrow> [] | Some graph \<Rightarrow> [(name, graph)])
              circuits)"

text \<open>The body of the \<^verbatim>\<open>try\<close> statement.\<close>

definition compile_body ::
  "('o, 'g, 'b, 's) circuit_env \<Rightarrow> ('o, 'g, 's) compiler_env \<Rightarrow> ('o, 's) runtime
     \<Rightarrow> (string \<times> 'o pyval list option) list option \<Rightarrow> Configuration \<Rightarrow> 'o
     \<Rightarrow> (('o, 'g) Program, ('o, 'g) ProgramCompiler \<times> 's) act" where
  "compile_body E C R inputsets configuration program_artifacts =
     act_bind get_self (\<lambda>self.
     act_bind (evaluate_circuits E C (map fst (pcomp_circuits self)) inputsets
                 program_artifacts) (\<lambda>_.
     act_bind get_self (\<lambda>self.
     act_bind (ext (CompilationContext_mlir_context C (pcomp_compilation_context self)))
       (\<lambda>mlir_context.
     act_bind (ext (GraphConverter_convert_many C (graphs_of (pcomp_circuits self))
                      (pcomp_configuration self) mlir_context)) (\<lambda>mlir_module.
     act_bind (ext (artifacts_add_mlir_to_compile C program_artifacts
                      (mlir_str C mlir_module))) (\<lambda>_.
     act_bind (ext (Program_init R (graphs_of (pcomp_circuits self)) mlir_module
                      (pcomp_compilation_context self) (Some configuration))) (\<lambda>output.
     act_bind (case prog_rt output of
                 ExecutionRt client server \<Rightarrow>
                   ext (act_bind (client_parameters_serialize C client)
                          (artifacts_add_client_parameters C program_artifacts))
               | SimulationRt server \<Rightarrow> act_return ()) (\<lambda>_.
     act_return output))))))))"

text \<open>
  \<^verbatim>\<open>except Exception\<close>: export the artifacts when the compiler's own configuration asks
  for it, then raise the exception again (an exception of the export takes its place).
\<close>

definition dump_and_reraise ::
  "('o, 'g, 's) compiler_env \<Rightarrow> 'o \<Rightarrow> ('r, ('o, 'g) ProgramCompiler \<times> 's) act
     \<Rightarrow> ('r, ('o, 'g) ProgramCompiler \<times> 's) act" where
  "dump_and_reraise C program_artifacts body =
     (\<lambda>state.
        case body state of
          (Inr r, state') \<Rightarrow> (Inr r, state')
        | (Inl e, (self, s)) \<Rightarrow>
            if dump_artifacts_on_unexpected_failures (pcomp_configuration self)
            then (case artifacts_export C program_artifacts s of
                    (Inl e', s') \<Rightarrow> (Inl e', (self, s'))
                  | (Inr u, s') \<Rightarrow> (Inl e, (self, s')))
            else (Inl e, (self, s)))"

definition compile ::
  "('o, 'g, 'b, 's) circuit_env \<Rightarrow> ('o, 'g, 's) compiler_env \<Rightarrow> ('o, 's) runtime
     \<Rightarrow> (string \<times> 'o pyval list option) list option \<Rightarrow> Configuration option \<Rightarrow> 'o option
     \<Rightarrow> (string \<times> 'o pyval) list
     \<Rightarrow> (('o, 'g) Program, ('o, 'g) ProgramCompiler \<times> 's) act" where
  "compile E C R inputsets configuration program_artifacts kwargs =
     act_bind get_self (\<lambda>self.
     act_bind (act_of (effective_configuration C self configuration kwargs))
       (\<lambda>configuration.
     if \<not> composable configuration
     then act_raise (RuntimeError
            ''Programs can only be compiled with `composable` activated.'')
     else
       act_bind (case program_artifacts of
                   Some given \<Rightarrow> act_return given
                 | None \<Rightarrow> ext (ProgramDebugArtifacts_new C (map fst (pcomp_circuits self))))
         (\<lambda>program_artifacts.
       dump_and_reraise C program_artifacts
         (compile_body E C R inputsets configuration program_artifacts))))"

section \<open>Bounds and bit-widths, modelled from the specification\<close>

subsection \<open>Graphs\<close>

text \<open>
  Modelled from the spec: a node of the class \<^verbatim>\<open>Graph\<close>, which is declared outside the
  embedded files. A node carries its operation kind, its ordered input edges (each the
  index of the node whose output it reads) and, of its output value descriptor, the two
  parts that bit-width assignment sets: the bit-width and the signedness.
\<close>

record 'k spec_node =
  sn_kind :: 'k
  sn_inputs :: "nat list"
  sn_bit_width :: nat
  sn_is_signed :: bool

text \<open>Modelled from the spec: a \<^verbatim>\<open>Graph\<close>, the list of its nodes.\<close>

type_synonym 'k spec_graph = "'k spec_node list"

text \<open>
  Modelled from the spec: the structure of a graph, the operation kind and the input
  edges of every node, and the values assigned on it, the bit-width and the signedness
  of every node.
\<close>

definition graph_structure :: "'k spec_graph \<Rightarrow> ('k \<times> nat list) list" where
  "graph_structure graph = map (\<lambda>node. (sn_kind node, sn_inputs node)) graph"

definition assigned_values :: "'k spec_graph \<Rightarrow> (nat \<times> bool) list" where
  "assigned_values graph = map (\<lambda>node. (sn_bit_width node, sn_is_signed node)) graph"

text \<open>
  Modelled from the spec: what the operation kinds, declared outside the embedded files,
  mean to the two graph operations. \<open>node_output\<close> is the cleartext output of a node of
  the given kind on a sample, from the outputs of its input nodes in argument position
  (an input node reads the sample, a constant neither); \<open>least_element\<close> and
  \<open>greatest_element\<close> are the least and greatest element of an output, scalar or tensor;
  \<open>fixed_input_width\<close> is the width a node of this kind requires of its inputs, such as
  the domain bits of a table lookup; \<open>shares_width_domain\<close> tells whether the operands of
  a node of this kind must share a width domain, as those of a binary operator.
\<close>

record ('k, 'o, 'v) spec_semantics =
  node_output :: "'k \<Rightarrow> 'o pyval \<Rightarrow> 'v list \<Rightarrow> error + 'v"
  least_element :: "'v \<Rightarrow> int"
  greatest_element :: "'v \<Rightarrow> int"
  fixed_input_width :: "'k \<Rightarrow> nat option"
  shares_width_domain :: "'k \<Rightarrow> bool"

subsection \<open>Bounds Analyzer\<close>

text \<open>
  Modelled from the spec: an order in which \<^verbatim>\<open>Graph.measure_bounds\<close> may evaluate the nodes,
  a topological order consistent with the dependency edges: every node once, each after
  the nodes it reads. \<open>seen\<close> are the nodes evaluated before.
\<close>

fun topological :: "('k \<times> nat list) list \<Rightarrow> nat list \<Rightarrow> nat list \<Rightarrow> bool" where
  "topological nodes seen [] = list_all (\<lambda>i. i \<in> set seen) [0..<length nodes]"
| "topological nodes seen (i # order) =
     (i < length nodes \<and> i \<notin> set seen \<and> set (snd (nodes ! i)) \<subseteq> set seen
      \<and> topological nodes (i # seen) order)"

text \<open>
  Modelled from the spec: the cleartext evaluation of the graph on one sample along an
  order of its nodes, keeping the output of every node evaluated so far.
\<close>

fun evaluate_nodes ::
  "('k, 'o, 'v) spec_semantics \<Rightarrow> ('k \<times> nat list) list \<Rightarrow> 'o pyval \<Rightarrow> nat list
     \<Rightarrow> (nat \<rightharpoonup> 'v) \<Rightarrow> error + (nat \<rightharpoonup> 'v)" where
  "evaluate_nodes sem nodes sample [] outputs = Inr outputs"
| "evaluate_nodes sem nodes sample (i # order) outputs =
     (case those (map outputs (snd (nodes ! i))) of
        None \<Rightarrow> Inl (KeyError ''input of a node not evaluated'')
      | Some args \<Rightarrow>
          (case node_output sem (fst (nodes ! i)) sample args of
             Inl e \<Rightarrow> Inl e
           | Inr v \<Rightarrow> evaluate_nodes sem nodes sample order (outputs(i \<mapsto> v))))"

text \<open>
  Modelled from the spec: the bounds that \<^verbatim>\<open>Graph.measure_bounds\<close> returns, for every
  node the least and the greatest value observed.
\<close>

type_synonym bounds = "(int \<times> int) list"

text \<open>Modelled from the spec: what one evaluation showed at every node.\<close>

definition row_of :: "('k, 'o, 'v) spec_semantics \<Rightarrow> nat \<Rightarrow> (nat \<rightharpoonup> 'v) \<Rightarrow> bounds" where
  "row_of sem n outputs =
     map (\<lambda>i. case outputs i of
                 None \<Rightarrow> (0, 0)
               | Some v \<Rightarrow> (least_element sem v, greatest_element sem v)) [0..<n]"

text \<open>
  Modelled from the spec: a sample shows a row when evaluating the graph on it, in some
  topological order, gives these outputs.
\<close>

definition observed ::
  "('k, 'o, 'v) spec_semantics \<Rightarrow> ('k \<times> nat list) list \<Rightarrow> 'o pyval \<Rightarrow> bounds \<Rightarrow> bool" where
  "observed sem nodes sample row \<longleftrightarrow>
     (\<exists>order outputs. topological nodes [] order
        \<and> evaluate_nodes sem nodes sample order Map.empty = Inr outputs
        \<and> row = row_of sem (length nodes) outputs)"

text \<open>
  Modelled from the spec: one step of the running minimum and maximum of
  \<^verbatim>\<open>Graph.measure_bounds\<close>, taking in what one more sample showed at every node.
\<close>

definition widen :: "bounds \<Rightarrow> bounds \<Rightarrow> bounds" where
  "widen acc row = map2 (\<lambda>(lo, hi) (lo', hi'). (min lo lo', max hi hi')) acc row"

text \<open>
  Modelled from the spec: the contract of \<^verbatim>\<open>Graph.measure_bounds\<close>. The bounds of a graph
  over an inputset, which has at least one sample, are the running minimum and maximum,
  node by node, of what the samples show in their order, each sample evaluated in a
  topological order of its own.
\<close>

definition is_bounds ::
  "('k, 'o, 'v) spec_semantics \<Rightarrow> ('k \<times> nat list) list \<Rightarrow> 'o pyval list \<Rightarrow> bounds \<Rightarrow> bool" where
  "is_bounds sem nodes samples b \<longleftrightarrow>
     (\<exists>rows. rows \<noteq> [] \<and> list_all2 (observed sem nodes) samples rows
        \<and> b = foldl widen (hd rows) (tl rows))"

text \<open>
  Modelled from the spec: one way to meet that contract, for a graph whose nodes are
  stored in a topological order: evaluate every sample in the order of storage, and
  fail on an empty inputset.
\<close>

definition spec_observe ::
  "('k, 'o, 'v) spec_semantics \<Rightarrow> ('k \<times> nat list) list \<Rightarrow> 'o pyval \<Rightarrow> error + bounds" where
  "spec_observe sem nodes sample =
     (if topological nodes [] [0..<length nodes]
      then (case evaluate_nodes sem nodes sample [0..<length nodes] Map.empty of
              Inl e \<Rightarrow> Inl e
            | Inr outputs \<Rightarrow> Inr (row_of sem (length nodes) outputs))
      else Inl (External ''the nodes are not stored in a topological order''))"

text \<open>Modelled from the spec: what every sample of an inputset shows, in their order.\<close>

fun spec_observe_all ::
  "('k, 'o, 'v) spec_semantics \<Rightarrow> ('k \<times> nat list) list \<Rightarrow> 'o pyval list
     \<Rightarrow> error + bounds list" where
  "spec_observe_all sem nodes [] = Inr []"
| "spec_observe_all sem nodes (sample # samples) =
     (case spec_observe sem nodes sample of
        Inl e \<Rightarrow> Inl e
      | Inr row \<Rightarrow>
          (case spec_observe_all sem nodes samples of
             Inl e \<Rightarrow> Inl e
           | Inr rows \<Rightarrow> Inr (row # rows)))"

text \<open>
  Modelled from the spec: \<^verbatim>\<open>Graph.measure_bounds\<close> done that way. It does not change the
  graph.
\<close>

definition spec_measure_bounds ::
  "('k, 'o, 'v) spec_semantics \<Rightarrow> 'k spec_graph \<Rightarrow> 'o pyval list \<Rightarrow> error + bounds" where
  "spec_measure_bounds sem graph samples =
     (if samples = [] then Inl (RuntimeError ''cannot trace without inputset'')
      else (case spec_observe_all sem (graph_structure graph) samples of
              Inl e \<Rightarrow> Inl e
            | Inr rows \<Rightarrow> Inr (foldl widen (hd rows) (tl rows))))"

text \<open>Bounds enclose a row when, at every node, the row lies within them.\<close>

definition encloses :: "bounds \<Rightarrow> bounds \<Rightarrow> bool" where
  "encloses b row \<longleftrightarrow>
     length row = length b
     \<and> (\<forall>i<length b. fst (b ! i) \<le> fst (row ! i) \<and> snd (row ! i) \<le> snd (b ! i))"

subsection \<open>Bit-Width Assigner\<close>

text \<open>
  Modelled from the spec: the number of bits of a non-negative integer, used by the
  bit-width assignment of \<^verbatim>\<open>Graph.update_with_bounds\<close>.
\<close>

fun bit_length :: "nat \<Rightarrow> nat" where
  "bit_length n = (if n = 0 then 0 else Suc (bit_length (n div 2)))"

declare bit_length.simps [simp del]

text \<open>
  Modelled from the spec: a width \<open>w\<close> represents measured bounds when they lie in
  \<open>[-2^(w-1), 2^(w-1)-1]\<close> (signed) or in \<open>[0, 2^w-1]\<close> (unsigned).
\<close>

definition fits :: "bool \<Rightarrow> nat \<Rightarrow> int \<times> int \<Rightarrow> bool" where
  "fits is_signed w b =
     (if is_signed then - (2 ^ (w - 1)) \<le> fst b \<and> snd b \<le> 2 ^ (w - 1) - 1
      else 0 \<le> fst b \<and> snd b \<le> 2 ^ w - 1)"

text \<open>
  Modelled from the spec: the bit-width and signedness a node requires locally, the
  least width of at least 1 that represents its bounds; a node is signed when its least
  value is negative.
\<close>

definition min_width :: "int \<times> int \<Rightarrow> nat \<times> bool" where
  "min_width b =
     (if fst b < 0
      then (Suc (max (bit_length (nat (snd b))) (bit_length (nat (- fst b - 1)))), True)
      else (max 1 (bit_length (nat (snd b))), False))"

text \<open>
  Modelled from the spec: the constraints that the structure of a graph puts on the
  widths. \<open>AtLeast j d\<close>: node \<open>j\<close> feeds a node that requires inputs of width \<open>d\<close>, so its
  width is at least \<open>d\<close>. \<open>SameWidth j k\<close>: nodes \<open>j\<close> and \<open>k\<close> are operands of one node
  whose operands share a width domain, so their widths are equal.
\<close>

datatype width_constraint = AtLeast nat nat | SameWidth nat nat

fun node_constraints ::
  "('k, 'o, 'v) spec_semantics \<Rightarrow> 'k \<times> nat list \<Rightarrow> width_constraint list" where
  "node_constraints sem (kind, inputs) =
     (case fixed_input_width sem kind of
        None \<Rightarrow> []
      | Some d \<Rightarrow> map (\<lambda>j. AtLeast j d) inputs)
     @ (if shares_width_domain sem kind
        then map (\<lambda>(j, k). SameWidth j k) (zip inputs (tl inputs))
        else [])"

definition width_constraints ::
  "('k, 'o, 'v) spec_semantics \<Rightarrow> ('k \<times> nat list) list \<Rightarrow> width_constraint list" where
  "width_constraints sem nodes = concat (map (node_constraints sem) nodes)"

text \<open>Modelled from the spec: a constraint holds of the widths of the nodes.\<close>

fun holds :: "nat list \<Rightarrow> width_constraint \<Rightarrow> bool" where
  "holds w (AtLeast j d) = (j < length w \<and> d \<le> w ! j)"
| "holds w (SameWidth j k) = (j < length w \<and> k < length w \<and> w ! j = w ! k)"

text \<open>
  Modelled from the spec: propagating one constraint backward, to the nodes that feed
  the constrained one. A node takes the maximum of the width it has and the width
  required of it; two nodes that share a width domain both take the maximum of theirs.
\<close>

fun propagate :: "width_constraint \<Rightarrow> nat list \<Rightarrow> nat list" where
  "propagate (AtLeast j d) w = w[j := max (w ! j) d]"
| "propagate (SameWidth j k) w = (let m = max (w ! j) (w ! k) in w[j := m, k := m])"

text \<open>
  Modelled from the spec: the widths that the assigner may leave. It starts from the
  widths the nodes require locally and propagates constraints of the graph, in an order
  and as often as it chooses, until every constraint holds.
\<close>

definition is_widths :: "width_constraint list \<Rightarrow> nat list \<Rightarrow> nat list \<Rightarrow> bool" where
  "is_widths cs local_widths w \<longleftrightarrow>
     (\<exists>schedule. set schedule \<subseteq> set cs
        \<and> w = foldl (\<lambda>w c. propagate c w) local_widths schedule
        \<and> list_all (holds w) cs)"

text \<open>
  Widths are admissible when every node has at least the width it requires locally and
  every constraint holds.
\<close>

definition admissible :: "width_constraint list \<Rightarrow> nat list \<Rightarrow> nat list \<Rightarrow> bool" where
  "admissible cs local_widths w \<longleftrightarrow>
     length w = length local_widths
     \<and> (\<forall>i<length local_widths. local_widths ! i \<le> w ! i)
     \<and> list_all (holds w) cs"

text \<open>
  Modelled from the spec: writing widths, and the signedness that the bounds ask for,
  into the value descriptors of the nodes. The structure is left alone.
\<close>

definition set_widths :: "'k spec_graph \<Rightarrow> nat list \<Rightarrow> bounds \<Rightarrow> 'k spec_graph" where
  "set_widths graph w b =
     map (\<lambda>(node, width, bnd). node\<lparr>sn_bit_width := width, sn_is_signed := snd (min_width bnd)\<rparr>)
       (zip graph (zip w b))"

text \<open>
  Modelled from the spec: the contract of \<^verbatim>\<open>Graph.update_with_bounds\<close>. The graph it
  leaves has the structure of the graph it was given and widths that the assigner may
  leave for the bounds.
\<close>

definition is_assignment ::
  "('k, 'o, 'v) spec_semantics \<Rightarrow> 'k spec_graph \<Rightarrow> bounds \<Rightarrow> 'k spec_graph \<Rightarrow> bool" where
  "is_assignment sem graph b graph' \<longleftrightarrow>
     length b = length graph
     \<and> (\<exists>w. is_widths (width_constraints sem (graph_structure graph))
               (map (\<lambda>bnd. fst (min_width bnd)) b) w
          \<and> graph' = set_widths graph w b)"

text \<open>
  Modelled from the spec: one way to meet that contract: as many rounds over all the
  constraints as the graph has nodes, the result returned when every constraint holds
  of it.
\<close>

definition spec_update_with_bounds ::
  "('k, 'o, 'v) spec_semantics \<Rightarrow> 'k spec_graph \<Rightarrow> bounds \<Rightarrow> error + 'k spec_graph" where
  "spec_update_with_bounds sem graph b =
     (let cs = width_constraints sem (graph_structure graph);
          w = foldl (\<lambda>w c. propagate c w) (map (\<lambda>bnd. fst (min_width bnd)) b)
                (concat (replicate (length graph) cs))
      in if length b = length graph \<and> list_all (holds w) cs
         then Inr (set_widths graph w b)
         else Inl (External ''the width constraints cannot be met''))"

text \<open>
  Modelled from the spec: collaborators of a circuit definition whose two graph
  operations meet these contracts whenever they return. Both may read and change the
  collaborators' state, raise, and choose their orders as they like.
\<close>

definition meets_spec ::
  "('o, 'k spec_graph, bounds, 's) circuit_env \<Rightarrow> ('k, 'o, 'v) spec_semantics \<Rightarrow> bool" where
  "meets_spec E sem \<longleftrightarrow>
     (\<forall>graph samples s b s'.
        Graph_measure_bounds E graph samples s = (Inr b, s')
          \<longrightarrow> is_bounds sem (graph_structure graph) samples b)
     \<and> (\<forall>graph b s graph' s'.
          Graph_update_with_bounds E graph b s = (Inr graph', s')
            \<longrightarrow> is_assignment sem graph b graph')"

text \<open>
  The outputs kept for a sample solve a node when the node's output is there and is what
  the node gives on the outputs kept for its inputs.
\<close>

definition solved ::
  "('k, 'o, 'v) spec_semantics \<Rightarrow> ('k \<times> nat list) list \<Rightarrow> 'o pyval \<Rightarrow> (nat \<rightharpoonup> 'v) \<Rightarrow> nat
     \<Rightarrow> bool" where
  "solved sem nodes sample outputs i \<longleftrightarrow>
     (\<exists>args v. map outputs (snd (nodes ! i)) = map Some args
        \<and> node_output sem (fst (nodes ! i)) sample args = Inr v
        \<and> outputs i = Some v)"

section \<open>Concrete collaborators, for running the model\<close>

text \<open>
  Small collaborators on which the definitions above can be evaluated: objects, graphs
  and bounds are natural numbers, and the state is the log of the collaborator calls made
  so far. Encrypting adds 1000, the circuit adds 1, decrypting subtracts 1000. The names
  used below hold no quote, backslash or unprintable character, and of such a string
  \<^verbatim>\<open>repr\<close> is the string in single quotes.
\<close>

fun demo_apply :: "(nat \<Rightarrow> nat) \<Rightarrow> nat pyval list \<Rightarrow> nat pyval" where
  "demo_apply f [Obj n] = Obj (f n)"
| "demo_apply f vs = PyTuple vs"

definition demo_runtime :: "(nat, string list) runtime" where
  "demo_runtime =
     \<lparr>Client_encrypt = (\<lambda>client args name s. (Inr (demo_apply (\<lambda>n. n + 1000) args), s @ [''encrypt''])),
      Client_decrypt = (\<lambda>client results name s. (Inr (demo_apply (\<lambda>n. n - 1000) results), s @ [''decrypt''])),
      Client_evaluation_keys = (\<lambda>client s. (Inr (client + 1), s @ [''evaluation_keys''])),
      Client_new = (\<lambda>specs directory s. (Inr (specs + 10), s @ [''Client''])),
      Server_create =
        (\<lambda>mlir configuration is_simulated context s.
           (Inr (if is_simulated then 1 else 2), s @ [''Server.create''])),
      Server_run = (\<lambda>server args keys name s. (Inr (demo_apply (\<lambda>n. n + 1) args), s @ [''run''])),
      Server_client_specs = (\<lambda>server. server + 100),
      ClientSpecs_client_parameters = (\<lambda>specs. specs + 1000),
      validate_input_args = (\<lambda>specs args name s. (Inr args, s @ [''validate_input_args''])),
      SimulatedValueExporter_new = (\<lambda>parameters name s. (Inr parameters, s)),
      exporter_export = (\<lambda>exporter position arg s. (Inr arg, s @ [''export''])),
      SimulatedValueDecrypter_new = (\<lambda>parameters name s. (Inr parameters, s)),
      decrypter_decrypt = (\<lambda>decrypter position result s. (Inr result, s @ [''decrypt'']))\<rparr>"

definition demo_configuration :: Configuration where
  "demo_configuration =
     \<lparr>fhe_simulation = False, fhe_execution = True, composable = True,
      use_insecure_key_cache = False, enable_unsafe_features = False,
      insecure_key_cache_location = None, auto_adjust_rounders = False,
      auto_adjust_truncators = False, dump_artifacts_on_unexpected_failures = True\<rparr>"

definition demo_circuit_env :: "(nat, nat, nat, string list) circuit_env" where
  "demo_circuit_env =
     \<lparr>repr = (\<lambda>name. [CHR 0x27] @ name @ [CHR 0x27]),
      EncryptionStatus_of =
        (\<lambda>status. if status = ''encrypted'' then Inr ENCRYPTED
                  else if status = ''clear'' then Inr CLEAR
                  else Inl (ValueError (status @ '' is not a valid EncryptionStatus''))),
      ValueDescription_of = (\<lambda>arg is_encrypted. Inr 0),
      py_iter = (\<lambda>v. Inl (TypeError ''object is not iterable'')),
      Tracer_trace =
        (\<lambda>function parameters is_direct s. (Inr (length parameters), s @ [''trace''])),
      fuse = (\<lambda>graph artifacts s. (Inr graph, s @ [''fuse''])),
      AutoRounder_adjust = (\<lambda>function inputset s. (Inr (), s @ [''adjust rounders''])),
      AutoTruncator_adjust = (\<lambda>function inputset s. (Inr (), s @ [''adjust truncators''])),
      Graph_measure_bounds =
        (\<lambda>graph inputset s. (Inr (length inputset), s @ [''measure_bounds''])),
      Graph_update_with_bounds =
        (\<lambda>graph bounds s. (Inr (graph + bounds), s @ [''update_with_bounds''])),
      Graph_call = (\<lambda>graph args s. (Inr (PyTuple args), s @ [''call''])),
      artifacts_add_source_code = (\<lambda>artifacts function s. (Inr (), s @ [''add_source_code''])),
      artifacts_add_parameter_encryption_status =
        (\<lambda>artifacts param status s. (Inr (), s @ [''add_parameter_encryption_status''])),
      artifacts_add_graph = (\<lambda>artifacts name graph s. (Inr (), s @ [''add_graph'']))\<rparr>"

definition demo_compiler_env :: "(nat, nat, string list) compiler_env" where
  "demo_compiler_env =
     \<lparr>Configuration_defaults = demo_configuration\<lparr>composable := False\<rparr>,
      Configuration_fork =
        (\<lambda>configuration kwargs.
           if map fst kwargs = [''composable'']
           then Inr (configuration\<lparr>composable := (map snd kwargs \<noteq> [PyNone])\<rparr>)
           else Inl (TypeError ''unexpected keyword argument'')),
      CompilationContext_new = (\<lambda>s. (Inr 0, s @ [''CompilationContext.new''])),
      CompilationContext_mlir_context = (\<lambda>context s. (Inr context, s @ [''mlir_context''])),
      ProgramDebugArtifacts_new = (\<lambda>names s. (Inr 0, s @ [''ProgramDebugArtifacts''])),
      ProgramDebugArtifacts_circuits = (\<lambda>artifacts name s. (Inr 0, s)),
      artifacts_add_mlir_to_compile = (\<lambda>artifacts mlir s. (Inr (), s @ [''add_mlir_to_compile''])),
      artifacts_add_client_parameters =
        (\<lambda>artifacts parameters s. (Inr (), s @ [''add_client_parameters''])),
      artifacts_export = (\<lambda>artifacts s. (Inr (), s @ [''export''])),
      GraphConverter_convert_many =
        (\<lambda>graphs configuration context s. (Inr (length graphs), s @ [''convert_many''])),
      mlir_str = (\<lambda>module. ''module''),
      client_parameters_serialize = (\<lambda>client s. (Inr client, s @ [''serialize'']))\<rparr>"

definition demo_function :: "nat PyFunction" where
  "demo_function = \<lparr>fn_name = ''add_sub'', fn_parameters = [''x'', ''y''], fn_object = 0\<rparr>"

definition demo_circuit :: "(nat, nat) CircuitDef" where
  "demo_circuit =
     \<lparr>cd_name = ''add_sub'', cd_function = demo_function,
      cd_parameter_encryption_statuses = [(''x'', ENCRYPTED), (''y'', ENCRYPTED)],
      cd_inputset = [PyTuple [Obj 1, Obj 2]], cd_graph = None, cd_artifacts = None,
      cd_is_direct = False, cd_parameter_values = []\<rparr>"

definition demo_compiler :: "(nat, nat) ProgramCompiler" where
  "demo_compiler =
     \<lparr>pcomp_configuration = demo_configuration,
      pcomp_circuits = [(''add_sub'', demo_circuit)],
      pcomp_compilation_context = 0\<rparr>"

definition demo_program_circuit :: "nat rt \<Rightarrow> (nat, nat) ProgramCircuit" where
  "demo_program_circuit runtime = \<lparr>pc_name = ''inc'', pc_rt = runtime, pc_graph = 7\<rparr>"

text \<open>
  Collaborators whose two graph operations are the ways given above to meet the
  contracts modelled from the specification, on a graph of four nodes: two parameters,
  their sum, whose operands share a width domain, and a table lookup of the sum that
  requires an input of 6 bits and gives its square. Both operations log their call.
\<close>

datatype demo_kind = Parameter nat | Add | Table nat

fun demo_output :: "demo_kind \<Rightarrow> nat pyval \<Rightarrow> int list \<Rightarrow> error + int" where
  "demo_output (Parameter k) (PyTuple items) args =
     (case drop k items of
        Obj n # rest \<Rightarrow> Inr (int n)
      | other \<Rightarrow> Inl (TypeError ''the sample has no such integer''))"
| "demo_output Add sample [a, b] = Inr (a + b)"
| "demo_output (Table d) sample [a] = Inr (a * a)"
| "demo_output kind sample args = Inl (TypeError ''operands do not match the operation'')"

definition demo_semantics :: "(demo_kind, nat, int) spec_semantics" where
  "demo_semantics =
     \<lparr>node_output = demo_output, least_element = (\<lambda>v. v), greatest_element = (\<lambda>v. v),
      fixed_input_width = (\<lambda>kind. case kind of Table d \<Rightarrow> Some d | other \<Rightarrow> None),
      shares_width_domain = (\<lambda>kind. kind = Add)\<rparr>"

definition demo_graph :: "nat list \<Rightarrow> demo_kind spec_graph" where
  "demo_graph widths =
     [\<lparr>sn_kind = Parameter 0, sn_inputs = [], sn_bit_width = widths ! 0, sn_is_signed = False\<rparr>,
      \<lparr>sn_kind = Parameter 1, sn_inputs = [], sn_bit_width = widths ! 1, sn_is_signed = False\<rparr>,
      \<lparr>sn_kind = Add, sn_inputs = [0, 1], sn_bit_width = widths ! 2, sn_is_signed = False\<rparr>,
      \<lparr>sn_kind = Table 6, sn_inputs = [2], sn_bit_width = widths ! 3, sn_is_signed = False\<rparr>]"

definition demo_spec_env :: "(nat, demo_kind spec_graph, bounds, string list) circuit_env" where
  "demo_spec_env =
     \<lparr>repr = repr demo_circuit_env,
      EncryptionStatus_of = EncryptionStatus_of demo_circuit_env,
      ValueDescription_of = (\<lambda>arg is_encrypted. Inr 0),
      py_iter = (\<lambda>v. Inl (TypeError ''object is not iterable'')),
      Tracer_trace =
        (\<lambda>function parameters is_direct s. (Inr (demo_graph [1, 1, 1, 1]), s @ [''trace''])),
      fuse = (\<lambda>graph artifacts s. (Inr graph, s @ [''fuse''])),
      AutoRounder_adjust = (\<lambda>function inputset s. (Inr (), s @ [''adjust rounders''])),
      AutoTruncator_adjust = (\<lambda>function inputset s. (Inr (), s @ [''adjust truncators''])),
      Graph_measure_bounds =
        (\<lambda>graph samples s.
           (spec_measure_bounds demo_semantics graph samples, s @ [''measure_bounds''])),
      Graph_update_with_bounds =
        (\<lambda>graph b s.
           (spec_update_with_bounds demo_semantics graph b, s @ [''update_with_bounds''])),
      Graph_call = (\<lambda>graph args s. (Inr (PyTuple args), s @ [''call''])),
      artifacts_add_source_code = (\<lambda>artifacts function s. (Inr (), s @ [''add_source_code''])),
      artifacts_add_parameter_encryption_status =
        (\<lambda>artifacts param status s. (Inr (), s @ [''add_parameter_encryption_status''])),
      artifacts_add_graph = (\<lambda>artifacts name graph s. (Inr (), s @ [''add_graph'']))\<rparr>"

definition demo_spec_circuit :: "nat pyval list \<Rightarrow> (nat, demo_kind spec_graph) CircuitDef" where
  "demo_spec_circuit inputset =
     \<lparr>cd_name = ''add_sub'', cd_function = demo_function,
      cd_parameter_encryption_statuses = [(''x'', ENCRYPTED), (''y'', ENCRYPTED)],
      cd_inputset = inputset, cd_graph = None, cd_artifacts = None,
      cd_is_direct = False, cd_parameter_values = []\<rparr>"

definition demo_samples :: "nat pyval list" where
  "demo_samples = [PyTuple [Obj 3, Obj 4], PyTuple [Obj 1, Obj 20]]"

section \<open>Properties of the rounding function\<close>

lemma half_up_Suc:
  "(val + 2 ^ k) div 2 ^ Suc k = val div 2 ^ Suc k + (if bit val k then 1 else 0)"
  for val :: int
proof -
  have a: "(val + 2 ^ k) div 2 ^ Suc k = ((val + 2 ^ k) div 2 ^ k) div 2"
    unfolding power_Suc2 by (rule zdiv_zmult2_eq) simp
  have b: "(val + 2 ^ k) div 2 ^ k = val div 2 ^ k + 1"
    by (rule div_add_self2) simp
  have c: "val div 2 ^ Suc k = (val div 2 ^ k) div 2"
    unfolding power_Suc2 by (rule zdiv_zmult2_eq) simp
  have d: "bit val k = odd (val div 2 ^ k)"
    by (simp add: bit_iff_odd)
  show ?thesis
    unfolding a b c d by (cases "odd (val div 2 ^ k)") (auto elim: oddE)
qed

lemma carry_Suc:
  "(val + 2 ^ k * 2) div 2 ^ Suc k = val div 2 ^ Suc k + 1" for val :: int
  unfolding power_Suc2 by (rule div_add_self2) simp

lemma delta_Suc:
  assumes "p_end < p_start"
  obtains k where "nat (p_start - p_end) = Suc k" and "nat (p_start - p_end - 1) = k"
  using assms by (cases "nat (p_start - p_end)") (auto simp: nat_diff_distrib')

lemma round_py_unsigned:
  assumes "p_end < p_start"
  shows "round_py val p_start p_end False
           = Inr (half_up_carry_spec val (nat (p_start - p_end)))"
proof -
  obtain k where k: "nat (p_start - p_end) = Suc k" "nat (p_start - p_end - 1) = k"
    using assms by (rule delta_Suc)
  show ?thesis
    using assms
    by (simp add: round_py_def py_lshift_def py_rshift_def half_up_carry_spec_def k Let_def
        and_exp_eq_0_iff_not_bit drop_bit_eq_div half_up_Suc carry_Suc del: power_Suc)
qed

lemma round_py_increment:
  assumes "p_end < p_start"
  shows "half_up_carry_spec val (nat (p_start - p_end))
           = drop_bit (nat (p_start - p_end)) val
             + (if bit val (nat (p_start - p_end) - 1) then 1 else 0)"
proof -
  obtain k where k: "nat (p_start - p_end) = Suc k" "nat (p_start - p_end - 1) = k"
    using assms by (rule delta_Suc)
  show ?thesis
    by (simp add: half_up_carry_spec_def k drop_bit_eq_div half_up_Suc del: power_Suc)
qed

lemma round_py_signed:
  assumes "p_end < p_start" and "1 \<le> p_end"
  shows "round_py val p_start p_end True
           = Inr (let output = half_up_carry_spec val (nat (p_start - p_end))
                  in if 2 ^ nat (p_end - 1) \<le> output then - output else output)"
proof -
  obtain k where k: "nat (p_start - p_end) = Suc k" "nat (p_start - p_end - 1) = k"
    using assms(1) by (rule delta_Suc)
  show ?thesis
    using assms
    by (simp add: round_py_def py_lshift_def py_rshift_def half_up_carry_spec_def k Let_def
        and_exp_eq_0_iff_not_bit drop_bit_eq_div half_up_Suc carry_Suc del: power_Suc)
qed

text \<open>
  Claim C6. For bit-widths \<open>p_start > p_end\<close> the unsigned reference rounding
  \<open>round(val, p_start, p_end)\<close> returns \<open>floor((val + 2^(d-1)) / 2^d)\<close> with
  \<open>d = p_start - p_end\<close>; that is the right-shifted value, plus one exactly when bit
  \<open>d - 1\<close> of \<open>val\<close> is set. In the signed path (\<open>p_end\<close> at least 1) the result is the
  negation of that output whenever the output is at least \<open>2^(p_end-1)\<close>, and the output
  itself otherwise. It holds for every integer \<open>val\<close>, in particular for the non-negative
  values representable in \<open>p_start\<close> bits.
\<close>

theorem round_half_up_carry:
  assumes "p_end < p_start"
  shows "round_py val p_start p_end False
           = Inr (half_up_carry_spec val (nat (p_start - p_end)))
       \<and> round_py val p_start p_end False
           = Inr (drop_bit (nat (p_start - p_end)) val
                  + (if bit val (nat (p_start - p_end) - 1) then 1 else 0))
       \<and> (1 \<le> p_end \<longrightarrow>
            round_py val p_start p_end True
              = Inr (let output = half_up_carry_spec val (nat (p_start - p_end))
                     in if 2 ^ nat (p_end - 1) \<le> output then - output else output))"
  using round_py_unsigned [OF assms, of val] round_py_increment [OF assms, of val]
    round_py_signed [OF assms, of val]
  by simp

theorem round_half_up_carry_witness:
  "(2::int) < 4
   \<and> round_py 14 4 2 False = Inr 4
   \<and> round_py 13 4 2 False = Inr 3
   \<and> round_py 14 4 2 True = Inr (- 4)
   \<and> round_py 5 4 2 True = Inr 1"
  using round_half_up_carry [of 2 4 14] round_half_up_carry [of 2 4 13]
    round_half_up_carry [of 2 4 5]
  by (simp add: half_up_carry_spec_def)

section \<open>Properties of Program and ProgramCircuit\<close>

lemmas act_defs = act_return_def act_raise_def act_bind_def act_of_def

lemmas self_defs = ext_def get_self_def modify_self_def

lemma Program_init_fails:
  assumes "configuration = None
           \<or> (\<exists>cfg. configuration = Some cfg \<and> \<not> fhe_simulation cfg \<and> \<not> fhe_execution cfg)"
  shows "Program_init R graphs mlir ctx configuration s = (Inl AssertionError, s)"
  using assms by (auto simp: Program_init_def act_defs)

lemma Program_init_mode:
  assumes "Program_init R graphs mlir ctx (Some cfg) s = (Inr p, s')"
  shows "(fhe_simulation cfg \<longrightarrow> (\<exists>server. prog_rt p = SimulationRt server))
       \<and> (\<not> fhe_simulation cfg \<longrightarrow>
            fhe_execution cfg \<and> (\<exists>client server. prog_rt p = ExecutionRt client server))"
  using assms
  by (auto simp: Program_init_def act_defs split: if_splits prod.splits sum.splits)

lemma Program_getattr_rt:
  assumes "Program_getattr p item = Inr c"
  shows "pc_rt c = prog_rt p \<and> pc_name c = item"
  using assms by (auto simp: Program_getattr_def split: option.splits)

text \<open>
  Claim C1, as the code has it. Constructing a Program without a configuration, or with
  neither \<open>fhe_simulation\<close> nor \<open>fhe_execution\<close> enabled, fails (an assertion error) and
  calls no collaborator. When the construction returns, the runtime is the simulation
  runtime exactly when \<open>fhe_simulation\<close> is enabled, whether or not \<open>fhe_execution\<close> is
  enabled too, and the execution runtime when only \<open>fhe_execution\<close> is enabled. The
  runtime is set by the constructor from the configuration it is given.
\<close>

theorem program_runtime_mode:
  "(configuration = None
      \<or> (\<exists>cfg. configuration = Some cfg \<and> \<not> fhe_simulation cfg \<and> \<not> fhe_execution cfg)
    \<longrightarrow> Program_init R graphs mlir ctx configuration s = (Inl AssertionError, s))
   \<and> (\<forall>cfg p s'. configuration = Some cfg
         \<and> Program_init R graphs mlir ctx configuration s = (Inr p, s')
       \<longrightarrow> (fhe_simulation cfg \<longrightarrow> (\<exists>server. prog_rt p = SimulationRt server))
         \<and> (\<not> fhe_simulation cfg \<longrightarrow>
              fhe_execution cfg \<and> (\<exists>client server. prog_rt p = ExecutionRt client server)))"
  using Program_init_fails [of configuration R graphs mlir ctx s]
    Program_init_mode [of R graphs mlir ctx _ s]
  by blast

theorem program_runtime_mode_witness:
  "Program_init demo_runtime [(''inc'', 7::nat)] 0 0
      (Some (demo_configuration\<lparr>fhe_execution := False\<rparr>)) []
     = (Inl AssertionError, [])
   \<and> Program_init demo_runtime [(''inc'', 7::nat)] 0 0 None [] = (Inl AssertionError, [])
   \<and> (\<exists>client server.
         prog_rt (projr (fst (Program_init demo_runtime [(''inc'', 7::nat)] 0 0
                                (Some demo_configuration) [])))
           = ExecutionRt client server)"
proof -
  have flags: "\<not> fhe_simulation (demo_configuration\<lparr>fhe_execution := False\<rparr>)"
    "\<not> fhe_execution (demo_configuration\<lparr>fhe_execution := False\<rparr>)"
    "\<not> fhe_simulation demo_configuration"
    by (simp_all add: demo_configuration_def)
  have run: "Program_init demo_runtime [(''inc'', 7::nat)] 0 0 (Some demo_configuration) []
      = (Inr \<lparr>prog_configuration = demo_configuration, prog_graphs = [(''inc'', 7)],
              prog_mlir_module = 0, prog_compilation_context = 0,
              prog_rt = ExecutionRt 112 2\<rparr>, [''Server.create'', ''Client''])"
    by (simp add: Program_init_def act_defs demo_runtime_def demo_configuration_def)
  have a: "Program_init demo_runtime [(''inc'', 7::nat)] 0 0
      (Some (demo_configuration\<lparr>fhe_execution := False\<rparr>)) [] = (Inl AssertionError, [])"
    using program_runtime_mode
        [of "Some (demo_configuration\<lparr>fhe_execution := False\<rparr>)" demo_runtime
            "[(''inc'', 7::nat)]" 0 0 "[]"] flags
    by blast
  have b: "Program_init demo_runtime [(''inc'', 7::nat)] 0 0 None [] = (Inl AssertionError, [])"
    using program_runtime_mode [of None demo_runtime "[(''inc'', 7::nat)]" 0 0 "[]"]
    by blast
  have c: "\<exists>client server.
         prog_rt (projr (fst (Program_init demo_runtime [(''inc'', 7::nat)] 0 0
                                (Some demo_configuration) [])))
           = ExecutionRt client server"
    using program_runtime_mode
        [of "Some demo_configuration" demo_runtime "[(''inc'', 7::nat)]" 0 0 "[]"]
      flags(3) run
    by simp
  from a b c show ?thesis by blast
qed

text \<open>
  With both \<open>fhe_simulation\<close> and \<open>fhe_execution\<close> enabled the constructor does not fail:
  it builds the simulated server and the simulation runtime.
\<close>

theorem program_both_modes_enabled:
  "Program_init demo_runtime [(''inc'', 7::nat)] 0 0
      (Some (demo_configuration\<lparr>fhe_simulation := True\<rparr>)) []
    = (Inr \<lparr>prog_configuration = demo_configuration\<lparr>fhe_simulation := True\<rparr>,
            prog_graphs = [(''inc'', 7)], prog_mlir_module = 0, prog_compilation_context = 0,
            prog_rt = SimulationRt 1\<rparr>, [''Server.create''])"
  by (simp add: Program_init_def act_defs demo_runtime_def demo_configuration_def)

text \<open>
  Claim C4. On a circuit whose runtime is the execution runtime, \<open>simulate\<close> fails with
  the assertion error of the mode check: no collaborator is called and the state is
  unchanged, so nothing is simulated. On a circuit whose runtime is the simulation
  runtime, \<open>encrypt\<close>, \<open>run\<close> and \<open>decrypt\<close> fail the same way. In execution mode these
  three hand over to the client and the server. A circuit taken from a Program that was
  built with \<open>fhe_simulation\<close> disabled is in execution mode, so \<open>simulate\<close> fails on it.
\<close>

theorem mode_mismatch:
  "(\<forall>client server. pc_rt self = ExecutionRt client server \<longrightarrow>
       simulate R self args s = (Inl AssertionError, s)
     \<and> encrypt R self args s = Client_encrypt R client args (pc_name self) s
     \<and> run R self args s
         = act_bind (Client_evaluation_keys R client)
             (\<lambda>keys. Server_run R server args (Some keys) (pc_name self)) s
     \<and> decrypt R self args s = Client_decrypt R client args (pc_name self) s)
   \<and> (\<forall>server. pc_rt self = SimulationRt server \<longrightarrow>
         encrypt R self args s = (Inl AssertionError, s)
       \<and> run R self args s = (Inl AssertionError, s)
       \<and> decrypt R self args s = (Inl AssertionError, s))
   \<and> (\<forall>graphs mlir ctx cfg s0 p s1 item.
         Program_init R graphs mlir ctx (Some cfg) s0 = (Inr p, s1)
         \<and> \<not> fhe_simulation cfg \<and> Program_getattr p item = Inr self
       \<longrightarrow> simulate R self args s = (Inl AssertionError, s))"
proof -
  have built: "simulate R self args s = (Inl AssertionError, s)"
    if "Program_init R graphs mlir ctx (Some cfg) s0 = (Inr p, s1)"
      and "\<not> fhe_simulation cfg" and "Program_getattr p item = Inr self"
    for graphs mlir ctx cfg s0 p s1 item
  proof -
    from Program_init_mode [OF that(1)] that(2)
    obtain client server where "prog_rt p = ExecutionRt client server" by blast
    with Program_getattr_rt [OF that(3)] have "pc_rt self = ExecutionRt client server" by simp
    then show ?thesis by (simp add: simulate_def act_defs)
  qed
  show ?thesis
    using built by (auto simp: simulate_def encrypt_def run_def decrypt_def act_defs)
qed

theorem mode_mismatch_witness:
  "simulate demo_runtime (demo_program_circuit (ExecutionRt 112 2)) [Obj 5] []
     = (Inl AssertionError, [])
   \<and> encrypt demo_runtime (demo_program_circuit (SimulationRt 1)) [Obj 5] []
     = (Inl AssertionError, [])
   \<and> run demo_runtime (demo_program_circuit (SimulationRt 1)) [Obj 1005] []
     = (Inl AssertionError, [])
   \<and> decrypt demo_runtime (demo_program_circuit (SimulationRt 1)) [Obj 1006] []
     = (Inl AssertionError, [])
   \<and> encrypt demo_runtime (demo_program_circuit (ExecutionRt 112 2)) [Obj 5] []
     = (Inr (Obj 1005), [''encrypt''])"
proof -
  have rt: "pc_rt (demo_program_circuit r) = r" "pc_name (demo_program_circuit r) = ''inc''"
    for r by (simp_all add: demo_program_circuit_def)
  have enc: "Client_encrypt demo_runtime 112 [Obj 5] ''inc'' [] = (Inr (Obj 1005), [''encrypt''])"
    by (simp add: demo_runtime_def)
  have a: "simulate demo_runtime (demo_program_circuit (ExecutionRt 112 2)) [Obj 5] []
             = (Inl AssertionError, [])"
    and e: "encrypt demo_runtime (demo_program_circuit (ExecutionRt 112 2)) [Obj 5] []
             = (Inr (Obj 1005), [''encrypt''])"
    using mode_mismatch [of "demo_program_circuit (ExecutionRt 112 2)" demo_runtime "[Obj 5]" "[]"]
    by (simp_all add: rt enc)
  have b: "encrypt demo_runtime (demo_program_circuit (SimulationRt 1)) [Obj 5] []
             = (Inl AssertionError, [])"
    using mode_mismatch [of "demo_program_circuit (SimulationRt 1)" demo_runtime "[Obj 5]" "[]"]
    by (simp add: rt)
  have c: "run demo_runtime (demo_program_circuit (SimulationRt 1)) [Obj 1005] []
             = (Inl AssertionError, [])"
    using mode_mismatch [of "demo_program_circuit (SimulationRt 1)" demo_runtime "[Obj 1005]" "[]"]
    by (simp add: rt)
  have d: "decrypt demo_runtime (demo_program_circuit (SimulationRt 1)) [Obj 1006] []
             = (Inl AssertionError, [])"
    using mode_mismatch [of "demo_program_circuit (SimulationRt 1)" demo_runtime "[Obj 1006]" "[]"]
    by (simp add: rt)
  from a b c d e show ?thesis by blast
qed

text \<open>
  Claim C8. \<open>encrypt_run_decrypt\<close> returns what the three public operations return when
  a caller runs them one after the other, each on the result of the one before, and leaves
  the state they leave; nothing else happens in between. In execution mode that is the
  client's \<open>encrypt\<close>, the read of the client's evaluation keys, the server's \<open>run\<close> and
  the client's \<open>decrypt\<close>, in this order, stopping at the first exception. In simulation
  mode it fails at the mode check of \<open>encrypt\<close>.
\<close>

theorem encrypt_run_decrypt_composes:
  "encrypt_run_decrypt R c args s = composed_by_hand R c args s
   \<and> (\<forall>client server. pc_rt c = ExecutionRt client server \<longrightarrow>
        encrypt_run_decrypt R c args s
          = act_bind (Client_encrypt R client args (pc_name c))
              (\<lambda>encrypted. act_bind (Client_evaluation_keys R client)
                (\<lambda>keys. act_bind (Server_run R server [encrypted] (Some keys) (pc_name c))
                  (\<lambda>evaluated. Client_decrypt R client [evaluated] (pc_name c)))) s)
   \<and> (\<forall>server. pc_rt c = SimulationRt server \<longrightarrow>
        encrypt_run_decrypt R c args s = (Inl AssertionError, s))"
proof -
  have "encrypt_run_decrypt R c args s = composed_by_hand R c args s"
    by (simp add: encrypt_run_decrypt_def composed_by_hand_def act_bind_def
        split: prod.splits sum.splits)
  moreover have "encrypt_run_decrypt R c args s
        = act_bind (Client_encrypt R client args (pc_name c))
            (\<lambda>encrypted. act_bind (Client_evaluation_keys R client)
              (\<lambda>keys. act_bind (Server_run R server [encrypted] (Some keys) (pc_name c))
                (\<lambda>evaluated. Client_decrypt R client [evaluated] (pc_name c)))) s"
    if "pc_rt c = ExecutionRt client server" for client server
    using that
    by (simp add: encrypt_run_decrypt_def encrypt_def run_def decrypt_def act_defs
        split: prod.splits sum.splits)
  moreover have "encrypt_run_decrypt R c args s = (Inl AssertionError, s)"
    if "pc_rt c = SimulationRt server" for server
    using that by (simp add: encrypt_run_decrypt_def encrypt_def act_defs)
  ultimately show ?thesis by blast
qed

theorem encrypt_run_decrypt_composes_witness:
  "encrypt_run_decrypt demo_runtime (demo_program_circuit (ExecutionRt 112 2)) [Obj 5] []
     = (Inr (Obj 6), [''encrypt'', ''evaluation_keys'', ''run'', ''decrypt''])
   \<and> composed_by_hand demo_runtime (demo_program_circuit (ExecutionRt 112 2)) [Obj 5] []
     = (Inr (Obj 6), [''encrypt'', ''evaluation_keys'', ''run'', ''decrypt''])
   \<and> encrypt_run_decrypt demo_runtime (demo_program_circuit (SimulationRt 1)) [Obj 5] []
     = (Inl AssertionError, [])"
proof -
  have rt: "pc_rt (demo_program_circuit r) = r" "pc_name (demo_program_circuit r) = ''inc''"
    for r by (simp_all add: demo_program_circuit_def)
  have chain: "act_bind (Client_encrypt demo_runtime 112 [Obj 5] ''inc'')
      (\<lambda>encrypted. act_bind (Client_evaluation_keys demo_runtime 112)
        (\<lambda>keys. act_bind (Server_run demo_runtime 2 [encrypted] (Some keys) ''inc'')
          (\<lambda>evaluated. Client_decrypt demo_runtime 112 [evaluated] ''inc''))) []
      = (Inr (Obj 6), [''encrypt'', ''evaluation_keys'', ''run'', ''decrypt''])"
    by (simp add: demo_runtime_def act_defs)
  note composes = encrypt_run_decrypt_composes
      [of demo_runtime "demo_program_circuit (ExecutionRt 112 2)" "[Obj 5]" "[]"]
  have a: "encrypt_run_decrypt demo_runtime (demo_program_circuit (ExecutionRt 112 2)) [Obj 5] []
             = (Inr (Obj 6), [''encrypt'', ''evaluation_keys'', ''run'', ''decrypt''])"
    using composes [THEN conjunct2] by (simp add: rt chain)
  have b: "composed_by_hand demo_runtime (demo_program_circuit (ExecutionRt 112 2)) [Obj 5] []
             = (Inr (Obj 6), [''encrypt'', ''evaluation_keys'', ''run'', ''decrypt''])"
    using composes [THEN conjunct1] a by simp
  have c: "encrypt_run_decrypt demo_runtime (demo_program_circuit (SimulationRt 1)) [Obj 5] []
             = (Inl AssertionError, [])"
    using encrypt_run_decrypt_composes
        [of demo_runtime "demo_program_circuit (SimulationRt 1)" "[Obj 5]" "[]",
         THEN conjunct2]
    by (simp add: rt)
  from a b c show ?thesis by blast
qed

section \<open>No method makes a circuit definition direct\<close>

text \<open>
  The constructor sets \<^verbatim>\<open>_is_direct\<close> to false and no method of \<^verbatim>\<open>CircuitDef\<close> assigns it:
  whatever a method does, and whether it returns or raises, the flag is what it was.
  The properties of \<^verbatim>\<open>_evaluate\<close> below are stated for circuit definitions that are not
  direct.
\<close>

lemma keeps_return: "keeps field (act_return x)"
  by (simp add: keeps_def act_return_def)

lemma keeps_raise: "keeps field (act_raise e)"
  by (simp add: keeps_def act_raise_def)

lemma keeps_of: "keeps field (act_of x)"
  by (simp add: keeps_def act_of_def)

lemma keeps_get_self: "keeps field get_self"
  by (simp add: keeps_def get_self_def)

lemma keeps_ext: "keeps field (ext m)"
  by (auto simp: keeps_def ext_def split: prod.splits)

lemma keeps_modify: "(\<And>self. field (f self) = field self) \<Longrightarrow> keeps field (modify_self f)"
  by (simp add: keeps_def modify_self_def)

lemma keeps_bind:
  assumes "keeps field m" and "\<And>x. keeps field (f x)"
  shows "keeps field (act_bind m f)"
  unfolding keeps_def
proof (intro allI impI)
  fix self s r self' s'
  assume run: "act_bind m f (self, s) = (r, (self', s'))"
  obtain r1 self1 s1 where m: "m (self, s) = (r1, (self1, s1))"
    by (cases "m (self, s)") auto
  with assms(1) have one: "field self1 = field self" unfolding keeps_def by blast
  show "field self' = field self"
  proof (cases r1)
    case (Inl e)
    with run m one show ?thesis by (simp add: act_bind_def)
  next
    case (Inr x)
    with run m have "f x (self1, s1) = (r, (self', s'))" by (simp add: act_bind_def)
    with assms(2) [of x] have "field self' = field self1" unfolding keeps_def by blast
    with one show ?thesis by simp
  qed
qed

lemma keeps_if: "keeps field a \<Longrightarrow> keeps field b \<Longrightarrow> keeps field (if c then a else b)"
  by simp

lemma keeps_option:
  "keeps field a \<Longrightarrow> (\<And>x. keeps field (b x)) \<Longrightarrow> keeps field (case v of None \<Rightarrow> a | Some x \<Rightarrow> b x)"
  by (cases v) simp_all

lemma keeps_list:
  "keeps field a \<Longrightarrow> (\<And>x xs. keeps field (b x xs))
   \<Longrightarrow> keeps field (case v of [] \<Rightarrow> a | x # xs \<Rightarrow> b x xs)"
  by (cases v) simp_all

lemmas keeps_intros =
  keeps_bind keeps_if keeps_option keeps_list keeps_return keeps_raise keeps_of keeps_get_self
  keeps_ext keeps_modify

lemma append_inputset_keeps_is_direct:
  "keeps cd_is_direct (append_inputset previous index samples)"
  by (induction samples arbitrary: index) (auto intro!: keeps_intros)

lemma CircuitDef_trace_keeps_is_direct: "keeps cd_is_direct (CircuitDef_trace E sample)"
  unfolding CircuitDef_trace_def by (auto intro!: keeps_intros)

lemma CircuitDef_evaluate_keeps_is_direct:
  "keeps cd_is_direct (CircuitDef_evaluate E action inputset configuration artifacts)"
  unfolding CircuitDef_evaluate_def
  by (auto intro!: keeps_intros append_inputset_keeps_is_direct CircuitDef_trace_keeps_is_direct)

lemma CircuitDef_call_keeps_is_direct: "keeps cd_is_direct (CircuitDef_call E args kwargs)"
  unfolding CircuitDef_call_def
  by (auto intro!: keeps_intros CircuitDef_trace_keeps_is_direct)

lemma CircuitDef_init_not_direct:
  "CircuitDef_init E function statuses = Inr circuit \<Longrightarrow> \<not> cd_is_direct circuit"
  by (auto simp: CircuitDef_init_def split: sum.splits if_splits)

section \<open>Properties of CircuitDef._evaluate\<close>

lemma append_inputset_ok:
  "\<forall>x\<in>set xs. arity x = length (cd_parameter_encryption_statuses self)
   \<Longrightarrow> append_inputset prev index xs (self, s)
       = (Inr (), (self\<lparr>cd_inputset := cd_inputset self @ xs\<rparr>, s))"
proof (induction xs arbitrary: self index)
  case Nil
  show ?case by (simp add: act_defs)
next
  case (Cons x xs)
  have "append_inputset prev (Suc index) xs (self\<lparr>cd_inputset := cd_inputset self @ [x]\<rparr>, s)
        = (Inr (), (self\<lparr>cd_inputset := cd_inputset self @ [x]\<rparr>
                      \<lparr>cd_inputset := cd_inputset (self\<lparr>cd_inputset := cd_inputset self @ [x]\<rparr>) @ xs\<rparr>, s))"
    using Cons.prems by (intro Cons.IH) simp
  then show ?case
    using Cons.prems by (simp add: act_defs self_defs)
qed

lemma append_inputset_bad:
  assumes "\<forall>x\<in>set good. arity x = length (cd_parameter_encryption_statuses self)"
    and "arity bad \<noteq> length (cd_parameter_encryption_statuses self)"
  shows "append_inputset prev index (good @ bad # rest) (self, s)
       = (Inl (ValueError (malformed_message (index + length good)
                 (length (cd_parameter_encryption_statuses self)) (arity bad))),
          (self\<lparr>cd_inputset := take prev (cd_inputset self @ good @ [bad])\<rparr>, s))"
  using assms
proof (induction good arbitrary: self index)
  case Nil
  then show ?case by (simp add: act_defs self_defs)
next
  case (Cons x xs)
  have "append_inputset prev (Suc index) (xs @ bad # rest) (self\<lparr>cd_inputset := cd_inputset self @ [x]\<rparr>, s)
        = (Inl (ValueError (malformed_message (Suc index + length xs)
                 (length (cd_parameter_encryption_statuses (self\<lparr>cd_inputset := cd_inputset self @ [x]\<rparr>))) (arity bad))),
          ((self\<lparr>cd_inputset := cd_inputset self @ [x]\<rparr>)\<lparr>cd_inputset := take prev (cd_inputset (self\<lparr>cd_inputset := cd_inputset self @ [x]\<rparr>) @ xs @ [bad])\<rparr>, s))"
    using Cons.prems by (intro Cons.IH) simp_all
  then show ?case
    using Cons.prems by (simp add: act_defs self_defs)
qed

lemma first_bad_split:
  assumes "\<exists>x\<in>set xs. \<not> P x"
  shows "\<exists>rest. xs = takeWhile P xs @ (xs ! length (takeWhile P xs)) # rest
        \<and> \<not> P (xs ! length (takeWhile P xs)) \<and> length (takeWhile P xs) < length xs"
proof -
  have ne: "dropWhile P xs \<noteq> []" using assms by (simp add: dropWhile_eq_Nil_conv)
  then obtain b rest where br: "dropWhile P xs = b # rest" by (cases "dropWhile P xs") auto
  have nb: "\<not> P b" using hd_dropWhile [OF ne] br by simp
  have xs: "xs = takeWhile P xs @ b # rest"
    using takeWhile_dropWhile_id [of P xs] br by simp
  have lt: "length (takeWhile P xs) < length xs"
    using arg_cong [OF xs, of length] by simp
  have "xs ! length (takeWhile P xs) = b"
    using arg_cong [OF xs, of "\<lambda>l. l ! length (takeWhile P xs)"] by simp
  with xs nb lt show ?thesis by auto
qed



text \<open>
  Claim C3. For a circuit definition that is not direct, has no graph and has accumulated
  no sample, evaluating with no inputset or with an empty one always raises and leaves
  the circuit definition as it was: no graph is traced. The exception is the
  \<open>RuntimeError\<close> "<action> function '<name>' without an inputset is not supported"
  whenever the auto-tuners return, in particular when neither is switched on; a tuner
  that raises on the empty inputset raises its own exception first.
\<close>

theorem empty_inputset_rejected:
  assumes "\<not> cd_is_direct self" and "cd_graph self = None" and "cd_inputset self = []"
    and "inputset = None \<or> inputset = Some []"
  shows "(\<exists>e s'. CircuitDef_evaluate E action inputset configuration artifacts (self, s)
                   = (Inl e, (self, s')))
       \<and> (\<forall>s'. auto_adjust E configuration (cd_function self) [] s = (Inr (), s') \<longrightarrow>
             CircuitDef_evaluate E action inputset configuration artifacts (self, s)
               = (Inl (RuntimeError (no_inputset_message action (fn_name (cd_function self)))),
                  (self, s')))
       \<and> (\<not> auto_adjust_rounders configuration \<and> \<not> auto_adjust_truncators configuration \<longrightarrow>
             CircuitDef_evaluate E action inputset configuration artifacts (self, s)
               = (Inl (RuntimeError (no_inputset_message action (fn_name (cd_function self)))),
                  (self, s)))"
proof -
  have run: "CircuitDef_evaluate E action inputset configuration artifacts (self, s)
      = (case auto_adjust E configuration (cd_function self) [] s of
           (Inl e, s') \<Rightarrow> (Inl e, (self, s'))
         | (Inr u, s') \<Rightarrow>
             (Inl (RuntimeError (no_inputset_message action (fn_name (cd_function self)))),
              (self, s')))"
    using assms
    by (auto simp: CircuitDef_evaluate_def act_defs self_defs split: prod.splits sum.splits)
  have off: "\<not> auto_adjust_rounders configuration \<and> \<not> auto_adjust_truncators configuration
      \<Longrightarrow> auto_adjust E configuration (cd_function self) [] s = (Inr (), s)"
    by (simp add: auto_adjust_def act_defs)
  show ?thesis
    unfolding run using off by (auto split: prod.splits sum.splits)
qed

theorem empty_inputset_rejected_witness:
  "CircuitDef_evaluate demo_circuit_env ''Compiling'' (Some []) demo_configuration 0
      (demo_circuit\<lparr>cd_inputset := []\<rparr>, [])
    = (Inl (RuntimeError ''Compiling function 'add_sub' without an inputset is not supported''),
       (demo_circuit\<lparr>cd_inputset := []\<rparr>, []))
   \<and> CircuitDef_evaluate demo_circuit_env ''Tracing'' None
      (demo_configuration\<lparr>auto_adjust_rounders := True\<rparr>) 0
      (demo_circuit\<lparr>cd_inputset := []\<rparr>, [])
    = (Inl (RuntimeError ''Tracing function 'add_sub' without an inputset is not supported''),
       (demo_circuit\<lparr>cd_inputset := []\<rparr>, [''adjust rounders'']))"
proof -
  have pre: "\<not> cd_is_direct (demo_circuit\<lparr>cd_inputset := []\<rparr>)"
    "cd_graph (demo_circuit\<lparr>cd_inputset := []\<rparr>) = None"
    "cd_inputset (demo_circuit\<lparr>cd_inputset := []\<rparr>) = []"
    by (simp_all add: demo_circuit_def)
  have name: "fn_name (cd_function demo_circuit) = ''add_sub''"
    by (simp add: demo_circuit_def demo_function_def)
  have off: "\<not> auto_adjust_rounders demo_configuration"
    "\<not> auto_adjust_truncators demo_configuration"
    by (simp_all add: demo_configuration_def)
  have tuned: "auto_adjust demo_circuit_env (demo_configuration\<lparr>auto_adjust_rounders := True\<rparr>)
      (cd_function (demo_circuit\<lparr>cd_inputset := []\<rparr>)) [] [] = (Inr (), [''adjust rounders''])"
    by (simp add: auto_adjust_def act_defs demo_circuit_env_def demo_configuration_def)
  have a: "CircuitDef_evaluate demo_circuit_env ''Compiling'' (Some []) demo_configuration 0
      (demo_circuit\<lparr>cd_inputset := []\<rparr>, [])
    = (Inl (RuntimeError ''Compiling function 'add_sub' without an inputset is not supported''),
       (demo_circuit\<lparr>cd_inputset := []\<rparr>, []))"
    using empty_inputset_rejected [OF pre, of "Some []" demo_circuit_env "''Compiling''"
        demo_configuration 0 "[]", THEN conjunct2, THEN conjunct2] off
    by (simp add: name no_inputset_message_def)
  have b: "CircuitDef_evaluate demo_circuit_env ''Tracing'' None
      (demo_configuration\<lparr>auto_adjust_rounders := True\<rparr>) 0
      (demo_circuit\<lparr>cd_inputset := []\<rparr>, [])
    = (Inl (RuntimeError ''Tracing function 'add_sub' without an inputset is not supported''),
       (demo_circuit\<lparr>cd_inputset := []\<rparr>, [''adjust rounders'']))"
    using empty_inputset_rejected [OF pre, of None demo_circuit_env "''Tracing''"
        "demo_configuration\<lparr>auto_adjust_rounders := True\<rparr>" 0 "[]",
        THEN conjunct2, THEN conjunct1] tuned
    by (simp add: name no_inputset_message_def)
  from a b show ?thesis by blast
qed

section \<open>Properties of CircuitDef.__init__\<close>

lemma list_remove_mem:
  "x \<in> set ys \<Longrightarrow> list_remove x ys = Inr (remove1 x ys)"
  by (induction ys) auto

lemma remove_present_filter:
  assumes "distinct keys" and "distinct remaining"
    and "\<forall>k\<in>set keys. k \<in> set container \<longrightarrow> k \<in> set remaining"
  shows "remove_present keys container remaining
           = Inr (filter (\<lambda>x. \<not> (x \<in> set keys \<and> x \<in> set container)) remaining)"
  using assms
proof (induction keys arbitrary: remaining)
  case Nil
  then show ?case by simp
next
  case (Cons k keys)
  show ?case
  proof (cases "k \<in> set container")
    case True
    with Cons.prems have mem: "k \<in> set remaining" by simp
    have rem: "remove1 k remaining = filter (\<lambda>x. x \<noteq> k) remaining"
      using Cons.prems(2) by (simp add: distinct_remove1_removeAll removeAll_filter_not_eq) metis
    have "remove_present keys container (remove1 k remaining)
        = Inr (filter (\<lambda>x. \<not> (x \<in> set keys \<and> x \<in> set container)) (remove1 k remaining))"
      using Cons.prems by (intro Cons.IH) auto
    then show ?thesis
      using True mem by (auto simp: list_remove_mem rem intro: filter_cong)
  next
    case False
    have "remove_present keys container remaining
        = Inr (filter (\<lambda>x. \<not> (x \<in> set keys \<and> x \<in> set container)) remaining)"
      using Cons.prems by (intro Cons.IH) auto
    then show ?thesis
      using False by (auto intro: filter_cong)
  qed
qed

lemma missing_args_eq:
  assumes "distinct params" and "distinct keys"
  shows "remove_present keys params params = Inr (filter (\<lambda>p. p \<notin> set keys) params)"
proof -
  have "remove_present keys params params
      = Inr (filter (\<lambda>x. \<not> (x \<in> set keys \<and> x \<in> set params)) params)"
    using assms by (intro remove_present_filter) auto
  also have "filter (\<lambda>x. \<not> (x \<in> set keys \<and> x \<in> set params)) params
      = filter (\<lambda>p. p \<notin> set keys) params"
    by (rule filter_cong) auto
  finally show ?thesis .
qed

lemma sublist_concat_map:
  assumes "a \<in> set xs"
  shows "sublist (f a) (concat (map (\<lambda>x. sep @ f x) xs))"
proof -
  from assms obtain ys zs where "xs = ys @ a # zs" by (auto simp: in_set_conv_decomp)
  then have "concat (map (\<lambda>x. sep @ f x) xs)
      = (concat (map (\<lambda>x. sep @ f x) ys) @ sep) @ f a @ concat (map (\<lambda>x. sep @ f x) zs)"
    by simp
  then show ?thesis unfolding sublist_def by blast
qed

lemma sublist_parameter_str:
  assumes "a \<in> set args"
  shows "sublist (repr E a) (parameter_str E args)"
proof (cases args)
  case Nil
  with assms show ?thesis by simp
next
  case (Cons x xs)
  show ?thesis
  proof (cases "a = x")
    case True
    then have "parameter_str E args = [] @ repr E a
        @ (concat (map (\<lambda>arg. '', '' @ repr E arg) (butlast (tl args)))
           @ (if length args \<noteq> 1 then '' and '' @ repr E (last args) else []))"
      using Cons by (simp add: parameter_str_def)
    then show ?thesis unfolding sublist_def by blast
  next
    case False
    with assms Cons have axs: "a \<in> set xs" by simp
    then have ne: "xs \<noteq> []" by auto
    then have xs: "xs = butlast xs @ [last xs]" by simp
    show ?thesis
    proof (cases "a = last xs")
      case True
      have "parameter_str E args
          = (repr E x @ concat (map (\<lambda>arg. '', '' @ repr E arg) (butlast xs)) @ '' and '')
            @ repr E a @ []"
        using Cons ne True by (simp add: parameter_str_def)
      then show ?thesis unfolding sublist_def by blast
    next
      case False
      with axs xs have "a \<in> set (butlast xs)"
        by (metis Un_iff empty_iff insert_iff list.set(1) list.set(2) set_append)
      from sublist_concat_map [OF this, of "repr E" "'', ''"]
      obtain ps ss where "concat (map (\<lambda>arg. '', '' @ repr E arg) (butlast xs)) = ps @ repr E a @ ss"
        unfolding sublist_def by blast
      then have "parameter_str E args
          = (repr E x @ ps) @ repr E a @ (ss @ '' and '' @ repr E (last xs))"
        using Cons ne by (simp add: parameter_str_def)
      then show ?thesis unfolding sublist_def by blast
    qed
  qed
qed

lemma sublist_missing_message:
  assumes "a \<in> set args"
  shows "sublist (repr E a) (missing_message E args name)"
proof -
  from sublist_parameter_str [OF assms] obtain ps ss where
    "parameter_str E args = ps @ repr E a @ ss" unfolding sublist_def by blast
  then have "\<exists>ps' ss'. missing_message E args name = ps' @ repr E a @ ss'"
    unfolding missing_message_def
    by (metis append.assoc)
  then show ?thesis unfolding sublist_def .
qed

lemma sublist_additional_message:
  assumes "a \<in> set args"
  shows "sublist (repr E a) (additional_message E args name)"
proof -
  from sublist_parameter_str [OF assms] obtain ps ss where
    "parameter_str E args = ps @ repr E a @ ss" unfolding sublist_def by blast
  then have "\<exists>ps' ss'. additional_message E args name = ps' @ repr E a @ ss'"
    unfolding additional_message_def
    by (metis append.assoc)
  then show ?thesis unfolding sublist_def .
qed

text \<open>
  Claim C7. The names of a function's parameters are distinct, and so are the keys of a
  dictionary. Under that, the constructor of a circuit definition raises a \<open>ValueError\<close>
  as soon as the declared names and the parameter names differ: when some parameter has no
  declared status, the message lists every such parameter; otherwise, when some declared
  name is not a parameter, the message lists every such name. What \<^verbatim>\<open>repr\<close> gives for
  each listed name occurs in the message. The constructor returns a circuit definition only
  when the two sets of names coincide, and then it does whenever every declared status
  converts to an encryption status; the new circuit definition has no sample, no graph and
  is not direct.
\<close>

theorem declaration_mismatch_rejected:
  assumes "distinct (fn_parameters function)" and "distinct (map fst statuses)"
  shows "let missing = filter (\<lambda>p. p \<notin> set (map fst statuses)) (fn_parameters function);
             additional = filter (\<lambda>k. k \<notin> set (fn_parameters function)) (map fst statuses)
         in (missing \<noteq> [] \<longrightarrow>
               CircuitDef_init E function statuses
                 = Inl (ValueError (missing_message E missing (fn_name function)))
               \<and> (\<forall>p\<in>set missing.
                     sublist (repr E p) (missing_message E missing (fn_name function))))
          \<and> (missing = [] \<and> additional \<noteq> [] \<longrightarrow>
               CircuitDef_init E function statuses
                 = Inl (ValueError (additional_message E additional (fn_name function)))
               \<and> (\<forall>k\<in>set additional.
                     sublist (repr E k) (additional_message E additional (fn_name function))))
          \<and> (set (map fst statuses) \<noteq> set (fn_parameters function) \<longrightarrow>
               (\<exists>message. CircuitDef_init E function statuses = Inl (ValueError message)))
          \<and> ((\<exists>circuit. CircuitDef_init E function statuses = Inr circuit) \<longrightarrow>
               set (map fst statuses) = set (fn_parameters function))
          \<and> (set (map fst statuses) = set (fn_parameters function) \<longrightarrow>
               CircuitDef_init E function statuses
                 = (case convert_statuses E statuses of
                      Inl e \<Rightarrow> Inl e
                    | Inr converted \<Rightarrow>
                        Inr \<lparr>cd_name = fn_name function, cd_function = function,
                             cd_parameter_encryption_statuses = converted,
                             cd_inputset = [], cd_graph = None, cd_artifacts = None,
                             cd_is_direct = False, cd_parameter_values = []\<rparr>))"
proof -
  define missing where
    "missing = filter (\<lambda>p. p \<notin> set (map fst statuses)) (fn_parameters function)"
  define additional where
    "additional = filter (\<lambda>k. k \<notin> set (fn_parameters function)) (map fst statuses)"
  have m: "remove_present (map fst statuses) (fn_parameters function) (fn_parameters function)
      = Inr missing"
    unfolding missing_def using assms by (rule missing_args_eq)
  have a: "remove_present (fn_parameters function) (map fst statuses) (map fst statuses)
      = Inr additional"
    unfolding additional_def using assms(2,1) by (rule missing_args_eq)
  have sets: "set (map fst statuses) = set (fn_parameters function)
      \<longleftrightarrow> missing = [] \<and> additional = []"
    unfolding missing_def additional_def by (auto simp: filter_empty_conv)
  have c1: "CircuitDef_init E function statuses
      = Inl (ValueError (missing_message E missing (fn_name function)))" if "missing \<noteq> []"
    using that by (simp add: CircuitDef_init_def m)
  have c2: "CircuitDef_init E function statuses
      = Inl (ValueError (additional_message E additional (fn_name function)))"
    if "missing = []" "additional \<noteq> []"
    using that by (simp add: CircuitDef_init_def m a)
  have c3: "CircuitDef_init E function statuses
      = (case convert_statuses E statuses of
           Inl e \<Rightarrow> Inl e
         | Inr converted \<Rightarrow>
             Inr \<lparr>cd_name = fn_name function, cd_function = function,
                  cd_parameter_encryption_statuses = converted,
                  cd_inputset = [], cd_graph = None, cd_artifacts = None,
                  cd_is_direct = False, cd_parameter_values = []\<rparr>)"
    if "missing = []" "additional = []"
    using that by (simp add: CircuitDef_init_def m a)
  have c4: "\<exists>message. CircuitDef_init E function statuses = Inl (ValueError message)"
    if "set (map fst statuses) \<noteq> set (fn_parameters function)"
    using that sets c1 c2 by (cases "missing = []") auto
  have c5: "set (map fst statuses) = set (fn_parameters function)"
    if "CircuitDef_init E function statuses = Inr circuit" for circuit
    using that c4 by (cases "set (map fst statuses) = set (fn_parameters function)") auto
  show ?thesis
    unfolding Let_def missing_def [symmetric] additional_def [symmetric]
    using c1 c2 c3 c4 c5 sets sublist_missing_message sublist_additional_message
    by (intro conjI impI ballI) blast+
qed

theorem declaration_mismatch_rejected_witness:
  "CircuitDef_init demo_circuit_env demo_function [(''x'', ''encrypted'')]
     = Inl (ValueError ''Encryption status of parameter 'y' of function 'add_sub' is not provided'')
   \<and> CircuitDef_init demo_circuit_env demo_function
       [(''x'', ''encrypted''), (''z'', ''clear''), (''y'', ''clear''), (''w'', ''clear'')]
     = Inl (ValueError
         (''Encryption statuses of 'z' and 'w' are provided but they are not a parameter of function 'add_sub''
          @ [CHR 0x27]))
   \<and> CircuitDef_init demo_circuit_env demo_function [(''x'', ''encrypted''), (''y'', ''clear'')]
     = Inr \<lparr>cd_name = ''add_sub'', cd_function = demo_function,
            cd_parameter_encryption_statuses = [(''x'', ENCRYPTED), (''y'', CLEAR)],
            cd_inputset = [], cd_graph = None, cd_artifacts = None,
            cd_is_direct = False, cd_parameter_values = []\<rparr>"
proof -
  have params: "fn_parameters demo_function = [''x'', ''y'']" "fn_name demo_function = ''add_sub''"
    by (simp_all add: demo_function_def)
  have d: "distinct (fn_parameters demo_function)"
    by (simp add: params)
  have quoted: "repr demo_circuit_env = (\<lambda>name. [CHR 0x27] @ name @ [CHR 0x27])"
    by (simp add: demo_circuit_env_def)
  have a: "CircuitDef_init demo_circuit_env demo_function [(''x'', ''encrypted'')]
     = Inl (ValueError ''Encryption status of parameter 'y' of function 'add_sub' is not provided'')"
    using declaration_mismatch_rejected [OF d, of "[(''x'', ''encrypted'')]" demo_circuit_env]
    by (simp add: Let_def params missing_message_def parameter_str_def quoted)
  have b: "CircuitDef_init demo_circuit_env demo_function
       [(''x'', ''encrypted''), (''z'', ''clear''), (''y'', ''clear''), (''w'', ''clear'')]
     = Inl (ValueError
         (''Encryption statuses of 'z' and 'w' are provided but they are not a parameter of function 'add_sub''
          @ [CHR 0x27]))"
    using declaration_mismatch_rejected [OF d,
        of "[(''x'', ''encrypted''), (''z'', ''clear''), (''y'', ''clear''), (''w'', ''clear'')]"
           demo_circuit_env]
    by (simp add: Let_def params additional_message_def parameter_str_def quoted)
  have c: "CircuitDef_init demo_circuit_env demo_function [(''x'', ''encrypted''), (''y'', ''clear'')]
     = Inr \<lparr>cd_name = ''add_sub'', cd_function = demo_function,
            cd_parameter_encryption_statuses = [(''x'', ENCRYPTED), (''y'', CLEAR)],
            cd_inputset = [], cd_graph = None, cd_artifacts = None,
            cd_is_direct = False, cd_parameter_values = []\<rparr>"
    using declaration_mismatch_rejected [OF d,
        of "[(''x'', ''encrypted''), (''y'', ''clear'')]" demo_circuit_env]
    by (simp add: Let_def params demo_circuit_env_def)
  from a b c show ?thesis by blast
qed

section \<open>Properties of ProgramCompiler.compile\<close>

text \<open>
  Claim C5. When the configuration in effect (the one passed, after the keyword
  overrides) has \<open>composable\<close> switched off, \<open>compile\<close> raises the \<open>RuntimeError\<close>
  "Programs can only be compiled with `composable` activated." and the compiler, each of
  its circuits and the collaborators' state are what they were: no circuit has been
  evaluated. Whenever \<open>compile\<close> returns a program, the configuration in effect exists,
  has \<open>composable\<close> switched on and is the configuration of the program.
\<close>

theorem compile_requires_composable:
  "(\<forall>effective. effective_configuration C self configuration kwargs = Inr effective
       \<and> \<not> composable effective
     \<longrightarrow> compile E C R inputsets configuration program_artifacts kwargs (self, s)
           = (Inl (RuntimeError ''Programs can only be compiled with `composable` activated.''),
              (self, s)))
   \<and> (\<forall>given. configuration = Some given \<and> kwargs = [] \<and> \<not> composable given
     \<longrightarrow> compile E C R inputsets configuration program_artifacts kwargs (self, s)
           = (Inl (RuntimeError ''Programs can only be compiled with `composable` activated.''),
              (self, s)))
   \<and> (\<forall>program state'.
         compile E C R inputsets configuration program_artifacts kwargs (self, s)
           = (Inr program, state')
     \<longrightarrow> (\<exists>effective. effective_configuration C self configuration kwargs = Inr effective
            \<and> composable effective \<and> prog_configuration program = effective))"
proof -
  have stop: "compile E C R inputsets configuration program_artifacts kwargs (self, s)
      = (Inl (RuntimeError ''Programs can only be compiled with `composable` activated.''),
         (self, s))"
    if "effective_configuration C self configuration kwargs = Inr effective"
      and "\<not> composable effective" for effective
    using that by (simp add: compile_def act_defs get_self_def)
  have given: "effective_configuration C self (Some given) [] = Inr given" for given
    by (simp add: effective_configuration_def)
  have ok: "\<exists>effective. effective_configuration C self configuration kwargs = Inr effective
            \<and> composable effective \<and> prog_configuration program = effective"
    if run: "compile E C R inputsets configuration program_artifacts kwargs (self, s)
           = (Inr program, state')" for program state'
  proof (cases "effective_configuration C self configuration kwargs")
    case (Inl e)
    with run show ?thesis by (simp add: compile_def act_defs get_self_def)
  next
    case (Inr effective)
    show ?thesis
    proof (cases "composable effective")
      case False
      with stop [OF Inr] run show ?thesis by simp
    next
      case True
      have "prog_configuration program = effective"
        using run Inr True
        by (auto simp: compile_def compile_body_def dump_and_reraise_def Program_init_def
            act_defs get_self_def ext_def
            split: prod.splits sum.splits option.splits if_splits rt.splits)
      with Inr True show ?thesis by simp
    qed
  qed
  show ?thesis
    using stop given ok by blast
qed

theorem compile_requires_composable_witness:
  "compile demo_circuit_env demo_compiler_env demo_runtime
      (Some [(''add_sub'', Some [PyTuple [Obj 3, Obj 4]])])
      (Some (demo_configuration\<lparr>composable := False\<rparr>)) None [] (demo_compiler, [])
     = (Inl (RuntimeError ''Programs can only be compiled with `composable` activated.''),
        (demo_compiler, []))
   \<and> compile demo_circuit_env demo_compiler_env demo_runtime
      (Some [(''add_sub'', Some [PyTuple [Obj 3, Obj 4]])])
      (Some demo_configuration) None [(''composable'', PyNone)] (demo_compiler, [])
     = (Inl (RuntimeError ''Programs can only be compiled with `composable` activated.''),
        (demo_compiler, []))"
proof -
  have forked: "effective_configuration demo_compiler_env demo_compiler (Some demo_configuration)
      [(''composable'', PyNone)] = Inr (demo_configuration\<lparr>composable := False\<rparr>)"
    by (simp add: effective_configuration_def demo_compiler_env_def)
  have off: "\<not> composable (demo_configuration\<lparr>composable := False\<rparr>)"
    by simp
  have a: "compile demo_circuit_env demo_compiler_env demo_runtime
      (Some [(''add_sub'', Some [PyTuple [Obj 3, Obj 4]])])
      (Some (demo_configuration\<lparr>composable := False\<rparr>)) None [] (demo_compiler, [])
     = (Inl (RuntimeError ''Programs can only be compiled with `composable` activated.''),
        (demo_compiler, []))"
    using compile_requires_composable
        [of demo_compiler_env demo_compiler "Some (demo_configuration\<lparr>composable := False\<rparr>)"
            "[]" demo_circuit_env demo_runtime
            "Some [(''add_sub'', Some [PyTuple [Obj 3, Obj 4]])]" None "[]",
         THEN conjunct2, THEN conjunct1]
    by simp
  have b: "compile demo_circuit_env demo_compiler_env demo_runtime
      (Some [(''add_sub'', Some [PyTuple [Obj 3, Obj 4]])])
      (Some demo_configuration) None [(''composable'', PyNone)] (demo_compiler, [])
     = (Inl (RuntimeError ''Programs can only be compiled with `composable` activated.''),
        (demo_compiler, []))"
    using compile_requires_composable
        [of demo_compiler_env demo_compiler "Some demo_configuration"
            "[(''composable'', PyNone)]" demo_circuit_env demo_runtime
            "Some [(''add_sub'', Some [PyTuple [Obj 3, Obj 4]])]" None "[]",
         THEN conjunct1] forked off
    by blast
  from a b show ?thesis by blast
qed

text \<open>
  Claim C10. Called without a configuration, \<open>compile\<close> raises an \<open>AttributeError\<close> and
  leaves the compiler, its circuits and the collaborators' state as they were, whatever
  the other arguments are. When no circuit is called \<open>default_configuration\<close> the
  exception is the one of \<open>__getattr__\<close>; when a circuit has that name, \<open>__getattr__\<close>
  returns its definition and the next attribute access on it (\<open>fork\<close> with keyword
  overrides, \<open>composable\<close> without) raises the \<open>AttributeError\<close>.
\<close>

theorem compile_without_configuration:
  "(\<exists>message. compile E C R inputsets None program_artifacts kwargs (self, s)
                 = (Inl (AttributeError message), (self, s)))
   \<and> (map_of (pcomp_circuits self) ''default_configuration'' = None \<longrightarrow>
        compile E C R inputsets None program_artifacts kwargs (self, s)
          = (Inl (AttributeError ''No attribute default_configuration''), (self, s)))
   \<and> (\<forall>circuit. map_of (pcomp_circuits self) ''default_configuration'' = Some circuit \<longrightarrow>
        compile E C R inputsets None program_artifacts kwargs (self, s)
          = (Inl (AttributeError
                   (if length kwargs \<noteq> 0
                    then '''CircuitDef' object has no attribute 'fork'' @ [CHR 0x27]
                    else '''CircuitDef' object has no attribute 'composable'' @ [CHR 0x27])),
             (self, s)))"
  by (auto simp: compile_def effective_configuration_def ProgramCompiler_getattr_def
      act_defs get_self_def split: option.splits)

theorem compile_without_configuration_witness:
  "compile demo_circuit_env demo_compiler_env demo_runtime
      (Some [(''add_sub'', Some [PyTuple [Obj 3, Obj 4]])]) None None [] (demo_compiler, [])
     = (Inl (AttributeError ''No attribute default_configuration''), (demo_compiler, []))
   \<and> compile demo_circuit_env demo_compiler_env demo_runtime None None None []
      (demo_compiler\<lparr>pcomp_circuits := [(''default_configuration'', demo_circuit)]\<rparr>, [])
     = (Inl (AttributeError ('''CircuitDef' object has no attribute 'composable'' @ [CHR 0x27])),
        (demo_compiler\<lparr>pcomp_circuits := [(''default_configuration'', demo_circuit)]\<rparr>, []))"
proof -
  have none: "map_of (pcomp_circuits demo_compiler) ''default_configuration'' = None"
    by (simp add: demo_compiler_def)
  have some: "map_of (pcomp_circuits
        (demo_compiler\<lparr>pcomp_circuits := [(''default_configuration'', demo_circuit)]\<rparr>))
      ''default_configuration'' = Some demo_circuit"
    by simp
  have a: "compile demo_circuit_env demo_compiler_env demo_runtime
      (Some [(''add_sub'', Some [PyTuple [Obj 3, Obj 4]])]) None None [] (demo_compiler, [])
     = (Inl (AttributeError ''No attribute default_configuration''), (demo_compiler, []))"
    using compile_without_configuration
        [of demo_circuit_env demo_compiler_env demo_runtime
            "Some [(''add_sub'', Some [PyTuple [Obj 3, Obj 4]])]" None "[]" demo_compiler "[]",
         THEN conjunct2, THEN conjunct1] none
    by blast
  have b: "compile demo_circuit_env demo_compiler_env demo_runtime None None None []
      (demo_compiler\<lparr>pcomp_circuits := [(''default_configuration'', demo_circuit)]\<rparr>, [])
     = (Inl (AttributeError ('''CircuitDef' object has no attribute 'composable'' @ [CHR 0x27])),
        (demo_compiler\<lparr>pcomp_circuits := [(''default_configuration'', demo_circuit)]\<rparr>, []))"
    using compile_without_configuration
        [of demo_circuit_env demo_compiler_env demo_runtime None None "[]"
            "demo_compiler\<lparr>pcomp_circuits := [(''default_configuration'', demo_circuit)]\<rparr>"
            "[]",
         THEN conjunct2, THEN conjunct2] some
    by simp
  from a b show ?thesis by blast
qed

section \<open>Properties of the bounds and bit-widths modelled from the specification\<close>

subsection \<open>The order of evaluation does not show in the outputs\<close>

lemma those_eq_Some: "those xs = Some ys \<longleftrightarrow> xs = map Some ys"
  by (induction xs arbitrary: ys) (auto split: option.splits)

lemma topological_covers:
  assumes "topological nodes seen order" and "i < length nodes"
  shows "i \<in> set seen \<union> set order"
  using assms
proof (induction order arbitrary: seen)
  case Nil
  then show ?case by (simp add: list_all_iff)
next
  case (Cons a order)
  from Cons.prems have "topological nodes (a # seen) order" by simp
  from Cons.IH [OF this Cons.prems(2)] show ?case by auto
qed

lemma topological_range:
  "topological nodes seen order \<Longrightarrow> i \<in> set order \<Longrightarrow> i < length nodes"
  by (induction order arbitrary: seen) auto

lemma solved_extend:
  assumes "solved sem nodes x st i" and "st \<subseteq>\<^sub>m st'"
  shows "solved sem nodes x st' i"
proof -
  from assms(1) obtain args v where
    a: "map st (snd (nodes ! i)) = map Some args"
    and v: "node_output sem (fst (nodes ! i)) x args = Inr v" and i: "st i = Some v"
    unfolding solved_def by blast
  have kept: "st' j = st j" if "j \<in> dom st" for j
    using assms(2) that unfolding map_le_def by simp
  have "st' j = st j" if "j \<in> set (snd (nodes ! i))" for j
  proof -
    from that have "st j \<in> set (map st (snd (nodes ! i)))" by simp
    with a have "st j \<in> set (map Some args)" by simp
    then have "j \<in> dom st" by auto
    then show ?thesis by (rule kept)
  qed
  then have "map st' (snd (nodes ! i)) = map st (snd (nodes ! i))"
    by (intro map_cong [OF refl])
  with a have "map st' (snd (nodes ! i)) = map Some args" by simp
  moreover from i kept [of i] have "st' i = Some v" by auto
  ultimately show ?thesis using v unfolding solved_def by blast
qed

lemma evaluate_nodes_solves:
  assumes "evaluate_nodes sem nodes x order st0 = Inr st"
    and "topological nodes seen order" and "dom st0 = set seen"
  shows "st0 \<subseteq>\<^sub>m st \<and> (\<forall>i\<in>set order. solved sem nodes x st i)"
  using assms
proof (induction order arbitrary: st0 seen)
  case Nil
  then show ?case by simp
next
  case (Cons i order)
  from Cons.prems(1) obtain args v where
    args: "those (map st0 (snd (nodes ! i))) = Some args"
    and v: "node_output sem (fst (nodes ! i)) x args = Inr v"
    and rest: "evaluate_nodes sem nodes x order (st0(i \<mapsto> v)) = Inr st"
    by (auto split: option.splits sum.splits)
  from Cons.prems(2) have fresh: "i \<notin> set seen"
    and top: "topological nodes (i # seen) order" by simp_all
  have dom': "dom (st0(i \<mapsto> v)) = set (i # seen)"
    using Cons.prems(3) by simp
  from Cons.IH [OF rest top dom'] have le: "st0(i \<mapsto> v) \<subseteq>\<^sub>m st"
    and others: "\<forall>j\<in>set order. solved sem nodes x st j" by blast+
  have le0: "st0 \<subseteq>\<^sub>m st0(i \<mapsto> v)"
    using fresh Cons.prems(3) by (auto simp: map_le_def)
  have "solved sem nodes x (st0(i \<mapsto> v)) i"
  proof -
    from args have "map st0 (snd (nodes ! i)) = map Some args"
      by (simp add: those_eq_Some)
    moreover have "map (st0(i \<mapsto> v)) (snd (nodes ! i)) = map st0 (snd (nodes ! i))"
    proof (rule map_cong [OF refl])
      fix j assume "j \<in> set (snd (nodes ! i))"
      with Cons.prems(2) have "j \<in> set seen" by auto
      with fresh show "(st0(i \<mapsto> v)) j = st0 j" by auto
    qed
    ultimately show ?thesis using v unfolding solved_def by auto
  qed
  from solved_extend [OF this le] have "solved sem nodes x st i" .
  with others have "\<forall>j\<in>set (i # order). solved sem nodes x st j" by simp
  with map_le_trans [OF le0 le] show ?case by blast
qed

lemma solved_unique:
  assumes "topological nodes seen order"
    and "\<forall>i\<in>set order. solved sem nodes x st1 i \<and> solved sem nodes x st2 i"
    and "\<forall>j\<in>set seen. st1 j = st2 j"
  shows "\<forall>i\<in>set order. st1 i = st2 i"
  using assms
proof (induction order arbitrary: seen)
  case Nil
  then show ?case by simp
next
  case (Cons i order)
  from Cons.prems(2) obtain args1 v1 args2 v2 where
    a1: "map st1 (snd (nodes ! i)) = map Some args1"
    and v1: "node_output sem (fst (nodes ! i)) x args1 = Inr v1" and i1: "st1 i = Some v1"
    and a2: "map st2 (snd (nodes ! i)) = map Some args2"
    and v2: "node_output sem (fst (nodes ! i)) x args2 = Inr v2" and i2: "st2 i = Some v2"
    unfolding solved_def by auto
  have "map st1 (snd (nodes ! i)) = map st2 (snd (nodes ! i))"
    using Cons.prems(1,3) by (intro map_cong [OF refl]) auto
  with a1 a2 have "map Some args1 = map Some args2" by simp
  then have "args1 = args2" by (simp add: inj_map_eq_map)
  with v1 v2 i1 i2 have here: "st1 i = st2 i" by simp
  from Cons.prems(1) have top: "topological nodes (i # seen) order" by simp
  have "\<forall>j\<in>set order. st1 j = st2 j"
    using Cons.prems(2,3) here by (intro Cons.IH [OF top]) auto
  with here show ?case by simp
qed

lemma length_row_of [simp]: "length (row_of sem n st) = n"
  by (simp add: row_of_def)

lemma observed_length: "observed sem nodes x row \<Longrightarrow> length row = length nodes"
  unfolding observed_def by auto

lemma observed_unique:
  assumes "observed sem nodes x row" and "observed sem nodes x row'"
  shows "row = row'"
proof -
  from assms obtain ord1 st1 ord2 st2 where
    t1: "topological nodes [] ord1"
    and e1: "evaluate_nodes sem nodes x ord1 Map.empty = Inr st1"
    and r1: "row = row_of sem (length nodes) st1"
    and t2: "topological nodes [] ord2"
    and e2: "evaluate_nodes sem nodes x ord2 Map.empty = Inr st2"
    and r2: "row' = row_of sem (length nodes) st2"
    unfolding observed_def by blast
  from evaluate_nodes_solves [OF e1 t1] have s1: "\<forall>i\<in>set ord1. solved sem nodes x st1 i"
    by simp
  from evaluate_nodes_solves [OF e2 t2] have s2: "\<forall>i\<in>set ord2. solved sem nodes x st2 i"
    by simp
  have "\<forall>i\<in>set ord1. solved sem nodes x st1 i \<and> solved sem nodes x st2 i"
  proof
    fix i assume i: "i \<in> set ord1"
    then have "i < length nodes" using t1 by (rule topological_range [rotated])
    with topological_covers [OF t2] have "i \<in> set ord2" by auto
    with s1 s2 i show "solved sem nodes x st1 i \<and> solved sem nodes x st2 i" by simp
  qed
  from solved_unique [OF t1 this] have same: "\<forall>i\<in>set ord1. st1 i = st2 i" by simp
  have "st1 i = st2 i" if "i < length nodes" for i
    using topological_covers [OF t1 that] same by auto
  then show ?thesis unfolding r1 r2 row_of_def by simp
qed

subsection \<open>The bounds are the least ones that enclose what every sample shows\<close>

lemma widen_nth:
  "i < length acc \<Longrightarrow> i < length row \<Longrightarrow>
   widen acc row ! i = (min (fst (acc ! i)) (fst (row ! i)), max (snd (acc ! i)) (snd (row ! i)))"
  by (simp add: widen_def split: prod.splits)

lemma length_widen [simp]: "length (widen acc row) = min (length acc) (length row)"
  by (simp add: widen_def)

lemma encloses_refl: "encloses b b"
  by (simp add: encloses_def)

lemma encloses_trans: "encloses c b \<Longrightarrow> encloses b a \<Longrightarrow> encloses c a"
  unfolding encloses_def by (auto intro: order_trans)

lemma encloses_antisym:
  assumes "encloses a b" and "encloses b a"
  shows "a = b"
proof (rule nth_equalityI)
  show "length a = length b" using assms(1) by (simp add: encloses_def)
next
  fix i assume "i < length a"
  with assms show "a ! i = b ! i"
    unfolding encloses_def by (auto simp: prod_eq_iff intro: order_antisym)
qed

lemma encloses_widen:
  assumes "length acc = length row"
  shows "encloses (widen acc row) acc \<and> encloses (widen acc row) row"
  using assms unfolding encloses_def by (simp add: widen_nth)

lemma widen_least:
  assumes "encloses c acc" and "encloses c row"
  shows "encloses c (widen acc row)"
  using assms unfolding encloses_def by (simp add: widen_nth)

lemma foldl_widen_length:
  "length acc = n \<Longrightarrow> \<forall>r\<in>set rs. length r = n \<Longrightarrow> length (foldl widen acc rs) = n"
  by (induction rs arbitrary: acc) simp_all

lemma foldl_widen_encloses:
  assumes "length acc = n" and "\<forall>r\<in>set rs. length r = n"
  shows "encloses (foldl widen acc rs) acc \<and> (\<forall>r\<in>set rs. encloses (foldl widen acc rs) r)"
  using assms
proof (induction rs arbitrary: acc)
  case Nil
  then show ?case by (simp add: encloses_refl)
next
  case (Cons r rs)
  have len: "length (widen acc r) = n" using Cons.prems by simp
  from Cons.IH [OF len] Cons.prems(2)
  have top: "encloses (foldl widen (widen acc r) rs) (widen acc r)"
    and rest: "\<forall>r'\<in>set rs. encloses (foldl widen (widen acc r) rs) r'" by simp_all
  from Cons.prems have "length acc = length r" by simp
  from encloses_widen [OF this] top
  have "encloses (foldl widen (widen acc r) rs) acc" "encloses (foldl widen (widen acc r) rs) r"
    by (blast intro: encloses_trans)+
  with rest show ?case by simp
qed

lemma foldl_widen_least:
  assumes "encloses c acc" and "\<forall>r\<in>set rs. encloses c r"
  shows "encloses c (foldl widen acc rs)"
  using assms by (induction rs arbitrary: acc) (simp_all add: widen_least)

lemma is_bounds_rows:
  assumes "is_bounds sem nodes xs b"
  shows "\<exists>rows. rows \<noteq> [] \<and> list_all2 (observed sem nodes) xs rows
           \<and> length b = length nodes \<and> (\<forall>r\<in>set rows. encloses b r)
           \<and> (\<forall>c. (\<forall>r\<in>set rows. encloses c r) \<longrightarrow> encloses c b)"
proof -
  from assms obtain rows where ne: "rows \<noteq> []"
    and all: "list_all2 (observed sem nodes) xs rows"
    and b: "b = foldl widen (hd rows) (tl rows)"
    unfolding is_bounds_def by blast
  have len: "\<forall>r\<in>set rows. length r = length nodes"
  proof
    fix r assume "r \<in> set rows"
    then obtain k where "k < length rows" "r = rows ! k" by (auto simp: in_set_conv_nth)
    with all have "observed sem nodes (xs ! k) r" by (simp add: list_all2_conv_all_nth)
    then show "length r = length nodes" by (rule observed_length)
  qed
  from ne have split: "rows = hd rows # tl rows" by simp
  then have parts: "set rows = insert (hd rows) (set (tl rows))"
    by (metis list.set(2))
  with len have lh: "length (hd rows) = length nodes"
    and lt: "\<forall>r\<in>set (tl rows). length r = length nodes" by simp_all
  from foldl_widen_encloses [OF lh lt] parts b have enc: "\<forall>r\<in>set rows. encloses b r" by simp
  have least: "encloses c b" if "\<forall>r\<in>set rows. encloses c r" for c
    unfolding b using that parts by (intro foldl_widen_least) simp_all
  from foldl_widen_length [OF lh lt] b have "length b = length nodes" by simp
  with ne all enc least show ?thesis by blast
qed

lemma observed_rows_subset:
  assumes "list_all2 (observed sem nodes) xs rows"
    and "list_all2 (observed sem nodes) ys rows'" and "set xs \<subseteq> set ys"
  shows "set rows \<subseteq> set rows'"
proof
  fix r assume "r \<in> set rows"
  then obtain k where k: "k < length rows" and r: "r = rows ! k"
    by (auto simp: in_set_conv_nth)
  with assms(1) have o: "observed sem nodes (xs ! k) r" and kx: "k < length xs"
    by (simp_all add: list_all2_conv_all_nth)
  from kx assms(3) have "xs ! k \<in> set ys" by auto
  then obtain m where m: "m < length ys" and y: "ys ! m = xs ! k"
    by (auto simp: in_set_conv_nth)
  with assms(2) have "observed sem nodes (xs ! k) (rows' ! m)" and "m < length rows'"
    by (auto simp: list_all2_conv_all_nth)
  with observed_unique [OF o] show "r \<in> set rows'" by auto
qed

lemma is_bounds_determined:
  assumes "is_bounds sem nodes xs b" and "is_bounds sem nodes ys c" and "set xs = set ys"
  shows "b = c"
proof -
  from is_bounds_rows [OF assms(1)] obtain rows where
    rx: "list_all2 (observed sem nodes) xs rows"
    and bx: "\<forall>r\<in>set rows. encloses b r"
    and lx: "\<And>c. \<forall>r\<in>set rows. encloses c r \<Longrightarrow> encloses c b"
    by blast
  from is_bounds_rows [OF assms(2)] obtain rows' where
    ry: "list_all2 (observed sem nodes) ys rows'"
    and by': "\<forall>r\<in>set rows'. encloses c r"
    and ly: "\<And>b. \<forall>r\<in>set rows'. encloses b r \<Longrightarrow> encloses b c"
    by blast
  from observed_rows_subset [OF rx ry] observed_rows_subset [OF ry rx] assms(3)
  have "set rows = set rows'" by auto
  with bx by' have "\<forall>r\<in>set rows'. encloses b r" "\<forall>r\<in>set rows. encloses c r" by simp_all
  then have "encloses b c" "encloses c b" using lx ly by blast+
  then show ?thesis by (rule encloses_antisym)
qed

subsection \<open>The assigned widths are the least admissible ones\<close>

lemma nth_update_any: "xs[i := x] ! j = (if i = j \<and> i < length xs then x else xs ! j)"
  by (cases "i < length xs") (auto simp: nth_list_update list_update_beyond)

lemma length_propagate [simp]: "length (propagate c w) = length w"
  by (cases c) (simp_all add: Let_def)

lemma propagate_above: "i < length w \<Longrightarrow> w ! i \<le> propagate c w ! i"
  by (cases c) (simp_all add: Let_def nth_update_any)

lemma propagate_below:
  assumes "length u = length w" and "\<forall>i<length w. w ! i \<le> u ! i" and "holds u c"
  shows "\<forall>i<length w. propagate c w ! i \<le> u ! i"
proof (cases c)
  case (AtLeast j d)
  with assms show ?thesis by (simp add: nth_update_any)
next
  case (SameWidth j k)
  with assms(1,3) have r: "j < length w" "k < length w" and e: "u ! j = u ! k"
    by simp_all
  from assms(2) r have "w ! j \<le> u ! j" "w ! k \<le> u ! k" by simp_all
  with e have m: "max (w ! j) (w ! k) \<le> u ! j" "max (w ! j) (w ! k) \<le> u ! k"
    by simp_all
  show ?thesis
  proof (intro allI impI)
    fix i assume "i < length w"
    with assms(2) have "w ! i \<le> u ! i" by simp
    with m show "propagate c w ! i \<le> u ! i"
      unfolding SameWidth by (auto simp: Let_def nth_update_any)
  qed
qed

lemma length_run [simp]: "length (foldl (\<lambda>w c. propagate c w) w schedule) = length w"
  by (induction schedule arbitrary: w) simp_all

lemma run_above:
  "i < length w \<Longrightarrow> w ! i \<le> foldl (\<lambda>w c. propagate c w) w schedule ! i"
proof (induction schedule arbitrary: w)
  case Nil
  show ?case by simp
next
  case (Cons c schedule)
  from Cons.prems have "w ! i \<le> propagate c w ! i" by (rule propagate_above)
  also from Cons.prems have "\<dots> \<le> foldl (\<lambda>w c. propagate c w) (propagate c w) schedule ! i"
    by (intro Cons.IH) simp
  finally show ?case by simp
qed

lemma run_below:
  assumes "length u = length w" and "\<forall>i<length w. w ! i \<le> u ! i"
    and "\<forall>c\<in>set schedule. holds u c"
  shows "\<forall>i<length w. foldl (\<lambda>w c. propagate c w) w schedule ! i \<le> u ! i"
  using assms
proof (induction schedule arbitrary: w)
  case Nil
  then show ?case by simp
next
  case (Cons c schedule)
  from Cons.prems have "\<forall>i<length w. propagate c w ! i \<le> u ! i"
    by (intro propagate_below) simp_all
  with Cons.prems have
    "\<forall>i<length (propagate c w). foldl (\<lambda>w c. propagate c w) (propagate c w) schedule ! i \<le> u ! i"
    by (intro Cons.IH) simp_all
  then show ?case by simp
qed

lemma is_widths_least:
  assumes "is_widths cs l w"
  shows "admissible cs l w \<and> (\<forall>u. admissible cs l u \<longrightarrow> (\<forall>i<length l. w ! i \<le> u ! i))"
proof -
  from assms obtain schedule where sub: "set schedule \<subseteq> set cs"
    and w: "w = foldl (\<lambda>w c. propagate c w) l schedule" and st: "list_all (holds w) cs"
    unfolding is_widths_def by blast
  have "admissible cs l w"
    unfolding admissible_def using st by (simp add: w run_above)
  moreover have "\<forall>i<length l. w ! i \<le> u ! i" if "admissible cs l u" for u
  proof -
    from that have "length u = length l" "\<forall>i<length l. l ! i \<le> u ! i"
      and "\<forall>c\<in>set schedule. holds u c"
      using sub unfolding admissible_def by (auto simp: list_all_iff)
    then show ?thesis unfolding w by (rule run_below)
  qed
  ultimately show ?thesis by blast
qed

lemma is_widths_unique:
  assumes "is_widths cs l w" and "is_widths cs l w'"
  shows "w = w'"
proof (rule nth_equalityI)
  from is_widths_least [OF assms(1)] is_widths_least [OF assms(2)]
  show "length w = length w'" by (simp add: admissible_def)
next
  fix i assume "i < length w"
  with is_widths_least [OF assms(1)] have i: "i < length l" by (simp add: admissible_def)
  from is_widths_least [OF assms(1)] is_widths_least [OF assms(2)] i
  have "w ! i \<le> w' ! i" "w' ! i \<le> w ! i" by blast+
  then show "w ! i = w' ! i" by simp
qed

lemma graph_structure_set_widths:
  "length w = length graph \<Longrightarrow> length b = length graph
   \<Longrightarrow> graph_structure (set_widths graph w b) = graph_structure graph"
  unfolding graph_structure_def set_widths_def
  by (intro nth_equalityI) (simp_all split: prod.splits)

lemma assigned_values_set_widths:
  "length w = length graph \<Longrightarrow> length b = length graph
   \<Longrightarrow> assigned_values (set_widths graph w b) = zip w (map (\<lambda>bnd. snd (min_width bnd)) b)"
  unfolding assigned_values_def set_widths_def
  by (intro nth_equalityI) (simp_all split: prod.splits)

lemma is_assignment_structure:
  assumes "is_assignment sem graph b graph'"
  shows "graph_structure graph' = graph_structure graph"
proof -
  from assms obtain w where len: "length b = length graph"
    and w: "is_widths (width_constraints sem (graph_structure graph))
              (map (\<lambda>bnd. fst (min_width bnd)) b) w"
    and g: "graph' = set_widths graph w b"
    unfolding is_assignment_def by blast
  from is_widths_least [OF w] len have "length w = length graph" by (simp add: admissible_def)
  with len g show ?thesis by (simp add: graph_structure_set_widths)
qed

lemma is_assignment_determined:
  assumes "is_assignment sem g b g'" and "is_assignment sem h b h'"
    and "graph_structure g = graph_structure h"
  shows "assigned_values g' = assigned_values h'"
proof -
  from assms(1) obtain w where lg: "length b = length g"
    and w: "is_widths (width_constraints sem (graph_structure g))
              (map (\<lambda>bnd. fst (min_width bnd)) b) w"
    and g: "g' = set_widths g w b"
    unfolding is_assignment_def by blast
  from assms(2) obtain w' where lh: "length b = length h"
    and w': "is_widths (width_constraints sem (graph_structure h))
              (map (\<lambda>bnd. fst (min_width bnd)) b) w'"
    and h: "h' = set_widths h w' b"
    unfolding is_assignment_def by blast
  from w w' assms(3) have same: "w = w'" by (simp add: is_widths_unique)
  from is_widths_least [OF w] lg have "length w = length g" by (simp add: admissible_def)
  moreover from is_widths_least [OF w'] lh have "length w' = length h"
    by (simp add: admissible_def)
  ultimately show ?thesis using g h lg lh same by (simp add: assigned_values_set_widths)
qed

subsection \<open>The two ways given meet their contracts\<close>

lemma spec_observe_observed:
  "spec_observe sem nodes x = Inr row \<Longrightarrow> observed sem nodes x row"
  unfolding spec_observe_def observed_def
  by (auto split: if_splits sum.splits)

lemma spec_observe_all_observed:
  "spec_observe_all sem nodes xs = Inr rows \<Longrightarrow> list_all2 (observed sem nodes) xs rows"
  by (induction xs arbitrary: rows) (auto split: sum.splits dest: spec_observe_observed)

lemma spec_measure_bounds_meets:
  assumes "spec_measure_bounds sem graph xs = Inr b"
  shows "is_bounds sem (graph_structure graph) xs b"
proof -
  from assms obtain rows where ne: "xs \<noteq> []"
    and rows: "spec_observe_all sem (graph_structure graph) xs = Inr rows"
    and b: "b = foldl widen (hd rows) (tl rows)"
    unfolding spec_measure_bounds_def by (auto split: if_splits sum.splits)
  from spec_observe_all_observed [OF rows]
  have all: "list_all2 (observed sem (graph_structure graph)) xs rows" .
  with ne have "rows \<noteq> []" by (auto simp: list_all2_conv_all_nth)
  with all b show ?thesis unfolding is_bounds_def by blast
qed

lemma spec_update_with_bounds_meets:
  assumes "spec_update_with_bounds sem graph b = Inr graph'"
  shows "is_assignment sem graph b graph'"
proof -
  define cs where "cs = width_constraints sem (graph_structure graph)"
  define w where "w = foldl (\<lambda>w c. propagate c w) (map (\<lambda>bnd. fst (min_width bnd)) b)
                        (concat (replicate (length graph) cs))"
  from assms have len: "length b = length graph" and st: "list_all (holds w) cs"
    and g: "graph' = set_widths graph w b"
    unfolding spec_update_with_bounds_def cs_def w_def
    by (auto simp: Let_def split: if_splits)
  have "set (concat (replicate (length graph) cs)) \<subseteq> set cs" by auto
  with st have "is_widths cs (map (\<lambda>bnd. fst (min_width bnd)) b) w"
    unfolding is_widths_def w_def by blast
  with len g show ?thesis unfolding is_assignment_def cs_def by blast
qed

subsection \<open>The assigned width is the least one that fits\<close>

lemma bit_length_upper: "n < 2 ^ bit_length n"
proof (induction n rule: bit_length.induct)
  case (1 n)
  show ?case
  proof (cases "n = 0")
    case True
    then show ?thesis by (simp add: bit_length.simps)
  next
    case False
    with 1 have "n div 2 < 2 ^ bit_length (n div 2)" by simp
    then have "n < 2 * 2 ^ bit_length (n div 2)" by linarith
    with False show ?thesis by (subst bit_length.simps) simp
  qed
qed

lemma bit_length_lower: "0 < n \<Longrightarrow> 2 ^ (bit_length n - 1) \<le> n"
proof (induction n rule: bit_length.induct)
  case (1 n)
  show ?case
  proof (cases "n div 2 = 0")
    case True
    with 1(2) have "n = 1" by (auto simp: div_eq_0_iff)
    then show ?thesis by (simp add: bit_length.simps)
  next
    case False
    with 1 have ih: "2 ^ (bit_length (n div 2) - 1) \<le> n div 2" by simp
    have pos: "0 < bit_length (n div 2)" using False by (subst bit_length.simps) simp
    have "bit_length n = Suc (bit_length (n div 2))"
      using 1(2) by (subst bit_length.simps) simp
    then have "(2::nat) ^ (bit_length n - 1) = 2 * 2 ^ (bit_length (n div 2) - 1)"
      using pos by (cases "bit_length (n div 2)") auto
    with ih show ?thesis by linarith
  qed
qed

lemma min_width_fits:
  assumes "fst b \<le> snd b"
  shows "1 \<le> fst (min_width b) \<and> fits (snd (min_width b)) (fst (min_width b)) b"
proof (cases "fst b < 0")
  case True
  let ?m = "max (bit_length (nat (snd b))) (bit_length (nat (- fst b - 1)))"
  have hi: "snd b < 2 ^ ?m"
  proof -
    have "snd b \<le> int (nat (snd b))" by simp
    also have "int (nat (snd b)) < int (2 ^ bit_length (nat (snd b)))"
      using bit_length_upper [of "nat (snd b)"] by linarith
    also have "int (2 ^ bit_length (nat (snd b))) \<le> 2 ^ ?m"
      by (simp add: power_increasing)
    finally show ?thesis .
  qed
  have lo: "- fst b - 1 < 2 ^ ?m"
  proof -
    have "- fst b - 1 \<le> int (nat (- fst b - 1))" by simp
    also have "int (nat (- fst b - 1)) < int (2 ^ bit_length (nat (- fst b - 1)))"
      using bit_length_upper [of "nat (- fst b - 1)"] by linarith
    also have "int (2 ^ bit_length (nat (- fst b - 1))) \<le> 2 ^ ?m"
      by (simp add: power_increasing)
    finally show ?thesis .
  qed
  from True hi lo show ?thesis by (simp add: min_width_def fits_def)
next
  case False
  let ?m = "max 1 (bit_length (nat (snd b)))"
  have "snd b \<le> int (nat (snd b))" by simp
  also have "int (nat (snd b)) < int (2 ^ bit_length (nat (snd b)))"
    using bit_length_upper [of "nat (snd b)"] by linarith
  also have "int (2 ^ bit_length (nat (snd b))) \<le> 2 ^ ?m"
    by (simp add: power_increasing)
  finally have "snd b < 2 ^ ?m" .
  with False show ?thesis by (simp add: min_width_def fits_def)
qed

lemma min_width_least:
  assumes "fst b \<le> snd b" and "1 \<le> w" and "fits (snd (min_width b)) w b"
  shows "fst (min_width b) \<le> w"
proof (cases "fst b < 0")
  case True
  have fit: "- (2 ^ (w - 1)) \<le> fst b" "snd b \<le> 2 ^ (w - 1) - 1"
    using assms(3) True by (simp_all add: min_width_def fits_def)
  have a: "bit_length (nat (snd b)) \<le> w - 1"
  proof (rule ccontr)
    assume "\<not> bit_length (nat (snd b)) \<le> w - 1"
    then have lt: "w - 1 < bit_length (nat (snd b))" by simp
    then have pos: "0 < nat (snd b)" by (subst (asm) bit_length.simps) (auto split: if_splits)
    have "(2::nat) ^ (w - 1) \<le> 2 ^ (bit_length (nat (snd b)) - 1)"
      using lt by (intro power_increasing) auto
    also have "\<dots> \<le> nat (snd b)" using pos by (rule bit_length_lower)
    finally have "int (2 ^ (w - 1)) \<le> snd b" using pos by linarith
    with fit(2) show False by simp
  qed
  have c: "bit_length (nat (- fst b - 1)) \<le> w - 1"
  proof (rule ccontr)
    assume "\<not> bit_length (nat (- fst b - 1)) \<le> w - 1"
    then have lt: "w - 1 < bit_length (nat (- fst b - 1))" by simp
    then have pos: "0 < nat (- fst b - 1)"
      by (subst (asm) bit_length.simps) (auto split: if_splits)
    have "(2::nat) ^ (w - 1) \<le> 2 ^ (bit_length (nat (- fst b - 1)) - 1)"
      using lt by (intro power_increasing) auto
    also have "\<dots> \<le> nat (- fst b - 1)" using pos by (rule bit_length_lower)
    finally have "int (2 ^ (w - 1)) \<le> - fst b - 1" using pos by linarith
    with fit(1) show False by simp
  qed
  from a c assms(2) True show ?thesis by (simp add: min_width_def)
next
  case False
  have fit: "snd b \<le> 2 ^ w - 1"
    using assms(3) False by (simp add: min_width_def fits_def)
  have "bit_length (nat (snd b)) \<le> w"
  proof (rule ccontr)
    assume "\<not> bit_length (nat (snd b)) \<le> w"
    then have lt: "w \<le> bit_length (nat (snd b)) - 1" by simp
    then have pos: "0 < nat (snd b)"
      using assms(2) by (subst (asm) bit_length.simps) (auto split: if_splits)
    have "(2::nat) ^ w \<le> 2 ^ (bit_length (nat (snd b)) - 1)"
      using lt by (intro power_increasing) auto
    also have "\<dots> \<le> nat (snd b)" using pos by (rule bit_length_lower)
    finally have "int (2 ^ w) \<le> snd b" using pos by linarith
    with fit show False by simp
  qed
  with assms(2) False show ?thesis by (simp add: min_width_def)
qed

subsection \<open>What an evaluation that returns has done\<close>

lemma append_inputset_returns:
  assumes "append_inputset prev index xs (self, s) = (Inr u, state')"
  shows "state' = (self\<lparr>cd_inputset := cd_inputset self @ xs\<rparr>, s)"
proof (cases "\<forall>x\<in>set xs. arity x = length (cd_parameter_encryption_statuses self)")
  case True
  from append_inputset_ok [OF True, of prev index s] assms show ?thesis by simp
next
  case False
  then have "\<exists>x\<in>set xs. \<not> (\<lambda>x. arity x = length (cd_parameter_encryption_statuses self)) x"
    by blast
  from first_bad_split [OF this] obtain rest where
    split: "xs = takeWhile (\<lambda>x. arity x = length (cd_parameter_encryption_statuses self)) xs
              @ (xs ! length (takeWhile (\<lambda>x. arity x = length (cd_parameter_encryption_statuses self)) xs)) # rest"
    and bad: "arity (xs ! length (takeWhile (\<lambda>x. arity x = length (cd_parameter_encryption_statuses self)) xs))
              \<noteq> length (cd_parameter_encryption_statuses self)"
    by blast
  have good: "\<forall>x\<in>set (takeWhile (\<lambda>x. arity x = length (cd_parameter_encryption_statuses self)) xs).
      arity x = length (cd_parameter_encryption_statuses self)"
    using set_takeWhileD by fastforce
  from append_inputset_bad [OF good bad, of prev index rest s] split assms
  show ?thesis by simp
qed

lemma act_bindE:
  assumes "act_bind m f s = (Inr y, s'')"
  obtains x s' where "m s = (Inr x, s')" and "f x s' = (Inr y, s'')"
  using assms by (auto simp: act_bind_def split: prod.splits sum.splits)

lemma get_selfD: "get_self st = (r, st') \<Longrightarrow> st' = st \<and> r = Inr (fst st)"
  by (auto simp: get_self_def split: prod.splits)

lemma modify_selfD: "modify_self f st = (r, st') \<Longrightarrow> st' = (f (fst st), snd st) \<and> r = Inr ()"
  by (auto simp: modify_self_def split: prod.splits)

lemma extD: "ext m st = (r, st') \<Longrightarrow> fst st' = fst st \<and> m (snd st) = (r, snd st')"
  by (auto simp: ext_def split: prod.splits)

lemma act_ofD: "act_of x st = (r, st') \<Longrightarrow> st' = st \<and> r = x"
  by (simp add: act_of_def)

lemma act_returnD: "act_return x st = (r, st') \<Longrightarrow> st' = st \<and> r = Inr x"
  by (simp add: act_return_def)

lemma optional_artifacts_self:
  assumes "(case artifacts of None \<Rightarrow> act_return () | Some a \<Rightarrow> ext (m a)) st = (r, st')"
  shows "fst st' = fst st"
  using assms by (cases artifacts) (auto dest: act_returnD extD)

lemma CircuitDef_trace_returns:
  assumes "CircuitDef_trace E sample (self, s) = (Inr u, (self', s'))"
  shows "\<exists>graph. self' = self\<lparr>cd_graph := Some graph\<rparr>"
  using assms unfolding CircuitDef_trace_def
  apply (elim act_bindE)
  apply (drule get_selfD)
  apply (drule optional_artifacts_self)
  apply (drule act_ofD)+
  apply (drule modify_selfD)+
  apply (drule optional_artifacts_self)
  apply (drule extD)+
  apply (auto simp: prod_eq_iff)
  done

lemma evaluate_returns:
  assumes direct: "\<not> cd_is_direct self"
    and run: "CircuitDef_evaluate E action inputset configuration artifacts (self, s)
                = (Inr u, (self', s'))"
  shows "\<exists>graph b updated sA sB sC.
           cd_inputset self' = cd_inputset self @ (case inputset of None \<Rightarrow> [] | Some xs \<Rightarrow> xs)
         \<and> (\<forall>g. cd_graph self = Some g \<longrightarrow> graph = g)
         \<and> Graph_measure_bounds E graph (cd_inputset self') sA = (Inr b, sB)
         \<and> Graph_update_with_bounds E graph b sB = (Inr updated, sC)
         \<and> self' = self\<lparr>cd_inputset := cd_inputset self', cd_graph := Some updated\<rparr>"
proof -
  define xs where "xs = (case inputset of None \<Rightarrow> [] | Some xs \<Rightarrow> xs)"
  define selfA where "selfA = self\<lparr>cd_inputset := cd_inputset self @ xs\<rparr>"
  have loop: "(case inputset of None \<Rightarrow> act_return ()
               | Some samples \<Rightarrow> append_inputset (length (cd_inputset self)) 0 samples) (self, s)
              = (Inr (), (selfA, s))"
  proof (cases inputset)
    case None
    then show ?thesis by (simp add: act_defs selfA_def xs_def)
  next
    case (Some samples)
    obtain r st where r: "append_inputset (length (cd_inputset self)) 0 samples (self, s) = (r, st)"
      by (cases "append_inputset (length (cd_inputset self)) 0 samples (self, s)") auto
    show ?thesis
    proof (cases r)
      case (Inl e)
      with run direct Some r show ?thesis
        by (simp add: CircuitDef_evaluate_def act_defs self_defs)
    next
      case (Inr v)
      with r append_inputset_returns [of "length (cd_inputset self)" 0 samples self s v st] Some
      show ?thesis by (simp add: selfA_def xs_def)
    qed
  qed
  obtain rB sB where tune: "auto_adjust E configuration (cd_function selfA) (cd_inputset selfA) s = (rB, sB)"
    by (cases "auto_adjust E configuration (cd_function selfA) (cd_inputset selfA) s") auto
  have rB: "rB = Inr ()"
    using run direct loop tune
    by (cases rB) (simp_all add: CircuitDef_evaluate_def act_defs self_defs)
  define traced where "traced =
     (case cd_graph selfA of
        Some graph \<Rightarrow> act_return ()
      | None \<Rightarrow>
          (case cd_inputset selfA of
             [] \<Rightarrow> act_raise (RuntimeError
                     (no_inputset_message action (fn_name (cd_function selfA))))
           | first_sample # _ \<Rightarrow>
               act_bind (CircuitDef_trace E first_sample) (\<lambda>_.
               act_bind get_self (\<lambda>self.
               if cd_graph self = None then act_raise AssertionError
               else act_return ())))) (selfA, sB)"
  obtain rC selfC sC where tr: "traced = (rC, (selfC, sC))"
    by (cases traced) auto
  have after_tune: "CircuitDef_evaluate E action inputset configuration artifacts (self, s)
      = (case traced of
           (Inl e, st) \<Rightarrow> (Inl e, st)
         | (Inr v, st) \<Rightarrow>
             act_bind get_self (\<lambda>self.
               case cd_graph self of
                 None \<Rightarrow> act_raise (AttributeError
                           ('''NoneType' object has no attribute 'measure_bounds'' @ [CHR 0x27]))
               | Some graph \<Rightarrow>
                   act_bind (ext (Graph_measure_bounds E graph (cd_inputset self))) (\<lambda>bounds.
                   act_bind (ext (Graph_update_with_bounds E graph bounds)) (\<lambda>updated.
                   act_bind (modify_self (\<lambda>self. self\<lparr>cd_graph := Some updated\<rparr>)) (\<lambda>_.
                   ext (artifacts_add_graph E artifacts ''final'' updated))))) st)"
    using direct loop tune rB
    by (simp add: CircuitDef_evaluate_def act_defs self_defs traced_def
        split: prod.splits sum.splits)
  have rC: "rC = Inr ()"
    using run after_tune tr by (cases rC) simp_all
  have shapeC: "\<exists>graph. cd_graph selfC = Some graph \<and> selfC = selfA\<lparr>cd_graph := Some graph\<rparr>
                  \<and> (\<forall>g. cd_graph selfA = Some g \<longrightarrow> graph = g)"
  proof (cases "cd_graph selfA")
    case (Some g)
    with tr show ?thesis by (simp add: traced_def act_defs)
  next
    case None
    show ?thesis
    proof (cases "cd_inputset selfA")
      case Nil
      with None tr rC show ?thesis by (simp add: traced_def act_defs)
    next
      case (Cons first rest)
      obtain rT selfT sT where t: "CircuitDef_trace E first (selfA, sB) = (rT, (selfT, sT))"
        by (cases "CircuitDef_trace E first (selfA, sB)") auto
      have "rT = Inr ()" using None Cons tr rC t
        by (cases rT) (simp_all add: traced_def act_defs)
      with CircuitDef_trace_returns [of E first selfA sB "()" selfT sT] t
      obtain graph where g: "selfT = selfA\<lparr>cd_graph := Some graph\<rparr>" by auto
      with None Cons tr t \<open>rT = Inr ()\<close> have "selfC = selfT"
        by (simp add: traced_def act_defs self_defs split: if_splits)
      with g None show ?thesis by simp
    qed
  qed
  then obtain graph where gC: "cd_graph selfC = Some graph"
    and sC_eq: "selfC = selfA\<lparr>cd_graph := Some graph\<rparr>"
    and same: "\<forall>g. cd_graph selfA = Some g \<longrightarrow> graph = g" by blast
  have fin: "CircuitDef_evaluate E action inputset configuration artifacts (self, s)
      = (case Graph_measure_bounds E graph (cd_inputset selfC) sC of
           (Inl e, sD) \<Rightarrow> (Inl e, (selfC, sD))
         | (Inr b, sD) \<Rightarrow>
             (case Graph_update_with_bounds E graph b sD of
                (Inl e, sE) \<Rightarrow> (Inl e, (selfC, sE))
              | (Inr updated, sE) \<Rightarrow>
                  (case artifacts_add_graph E artifacts ''final'' updated sE of
                     (r, sF) \<Rightarrow> (r, (selfC\<lparr>cd_graph := Some updated\<rparr>, sF)))))"
    using after_tune tr rC gC
    by (simp add: act_defs self_defs split: sum.splits prod.splits)
  from run fin obtain b sD updated sE where
    mb: "Graph_measure_bounds E graph (cd_inputset selfC) sC = (Inr b, sD)"
    and ub: "Graph_update_with_bounds E graph b sD = (Inr updated, sE)"
    and self': "self' = selfC\<lparr>cd_graph := Some updated\<rparr>"
    by (auto split: prod.splits sum.splits)
  have inp: "cd_inputset self' = cd_inputset self @ xs"
    using self' sC_eq by (simp add: selfA_def)
  have "Graph_measure_bounds E graph (cd_inputset self') sC = (Inr b, sD)"
    using mb self' by simp
  moreover have "self' = self\<lparr>cd_inputset := cd_inputset self', cd_graph := Some updated\<rparr>"
    using self' sC_eq inp by (simp add: selfA_def)
  moreover have "\<forall>g. cd_graph self = Some g \<longrightarrow> graph = g"
    using same by (simp add: selfA_def)
  ultimately show ?thesis using inp ub unfolding xs_def by blast
qed

subsection \<open>Evaluating twice\<close>

lemma demo_structure:
  "graph_structure (demo_graph widths)
     = [(Parameter 0, []), (Parameter (Suc 0), []), (Add, [0, Suc 0]), (Table 6, [2])]"
  by (simp add: graph_structure_def demo_graph_def)

lemma demo_observe:
  "spec_observe demo_semantics
       [(Parameter 0, []), (Parameter (Suc 0), []), (Add, [0, Suc 0]), (Table 6, [2])]
       (PyTuple [Obj x, Obj y])
     = Inr [(int x, int x), (int y, int y), (int x + int y, int x + int y),
            ((int x + int y) * (int x + int y), (int x + int y) * (int x + int y))]"
  by (simp add: spec_observe_def row_of_def demo_semantics_def upt_rec)

lemma demo_update:
  "spec_update_with_bounds demo_semantics (demo_graph widths)
       [(1, 3), (2, 20), (3, 21), (9, 441)]
     = Inr (demo_graph [5, 5, 6, 9])"
  by (simp add: spec_update_with_bounds_def demo_structure width_constraints_def
      demo_semantics_def min_width_def bit_length.simps set_widths_def Let_def)
    (simp add: demo_graph_def)

lemma demo_first_run:
  "CircuitDef_evaluate demo_spec_env ''Compiling'' (Some demo_samples) demo_configuration 0
     (demo_spec_circuit [PyTuple [Obj 1, Obj 2]], [])
   = (Inr (), ((demo_spec_circuit ([PyTuple [Obj 1, Obj 2]] @ demo_samples))
                 \<lparr>cd_graph := Some (demo_graph [5, 5, 6, 9])\<rparr>,
               [''trace'', ''fuse'', ''measure_bounds'', ''update_with_bounds'', ''add_graph'']))"
  by (simp add: CircuitDef_evaluate_def CircuitDef_trace_def auto_adjust_def sample_items_def
      act_defs self_defs arity_def demo_spec_env_def demo_circuit_env_def demo_spec_circuit_def
      demo_configuration_def demo_samples_def spec_measure_bounds_def demo_structure
      demo_observe demo_update widen_def)

lemma demo_second_run:
  "CircuitDef_evaluate demo_spec_env ''Compiling'' (Some demo_samples) demo_configuration 0
     ((demo_spec_circuit ([PyTuple [Obj 1, Obj 2]] @ demo_samples))
        \<lparr>cd_graph := Some (demo_graph [5, 5, 6, 9])\<rparr>,
      [''trace'', ''fuse'', ''measure_bounds'', ''update_with_bounds'', ''add_graph''])
   = (Inr (), ((demo_spec_circuit ([PyTuple [Obj 1, Obj 2]] @ demo_samples @ demo_samples))
                 \<lparr>cd_graph := Some (demo_graph [5, 5, 6, 9])\<rparr>,
               [''trace'', ''fuse'', ''measure_bounds'', ''update_with_bounds'', ''add_graph'',
                ''measure_bounds'', ''update_with_bounds'', ''add_graph'']))"
  by (simp add: CircuitDef_evaluate_def CircuitDef_trace_def auto_adjust_def sample_items_def
      act_defs self_defs arity_def demo_spec_env_def demo_circuit_env_def demo_spec_circuit_def
      demo_configuration_def demo_samples_def spec_measure_bounds_def demo_structure
      demo_observe demo_update widen_def)

lemma demo_other_run:
  "CircuitDef_evaluate demo_spec_env ''Tracing'' (Some [PyTuple [Obj 1, Obj 2]])
     (demo_configuration\<lparr>auto_adjust_rounders := True\<rparr>) 5
     (demo_spec_circuit [PyTuple [Obj 1, Obj 20], PyTuple [Obj 3, Obj 4]], [''earlier''])
   = (Inr (), ((demo_spec_circuit
                  [PyTuple [Obj 1, Obj 20], PyTuple [Obj 3, Obj 4], PyTuple [Obj 1, Obj 2]])
                 \<lparr>cd_graph := Some (demo_graph [5, 5, 6, 9])\<rparr>,
               [''earlier'', ''adjust rounders'', ''trace'', ''fuse'', ''measure_bounds'',
                ''update_with_bounds'', ''add_graph'']))"
  by (simp add: CircuitDef_evaluate_def CircuitDef_trace_def auto_adjust_def sample_items_def
      act_defs self_defs arity_def demo_spec_env_def demo_circuit_env_def demo_spec_circuit_def
      demo_configuration_def spec_measure_bounds_def demo_structure
      demo_observe demo_update widen_def)

lemma demo_meets_spec: "meets_spec demo_spec_env demo_semantics"
  unfolding meets_spec_def
  by (auto simp: demo_spec_env_def intro: spec_measure_bounds_meets spec_update_with_bounds_meets)

text \<open>
  Claim C9, on the bounds measurement and bit-width update as the specification
  describes them: the two graph operations may read and change the collaborators' state
  and choose the order in which they evaluate nodes and propagate constraints, and what
  they return is the running minimum and maximum of the observed outputs and the widths
  left by propagating the constraints of the graph from the locally required widths.
  Take a circuit definition that is not direct and evaluate it twice with the same
  inputset and the same configuration, both calls returning, the second from whatever
  state the collaborators are in. Then the second call leaves on every node the
  bit-width and signedness that the first call left, and the structure of the graph.
  They are a function of the structure of the graph and of the accumulated inputset: any
  other evaluation that returns, of any circuit definition that is not direct, under
  any configuration and from any state, leaves the same bit-widths and signedness
  whenever its graph has the same structure and its accumulated inputset holds the same
  samples, in whatever order and however often.
\<close>

theorem bit_widths_reproducible:
  assumes spec: "meets_spec E sem"
    and direct: "\<not> cd_is_direct self" and direct': "\<not> cd_is_direct other"
    and first: "CircuitDef_evaluate E action (Some samples) configuration artifacts (self, s)
                  = (Inr (), (self1, s1))"
    and second: "CircuitDef_evaluate E action (Some samples) configuration artifacts (self1, t)
                  = (Inr (), (self2, s2))"
    and third: "CircuitDef_evaluate E action' inputset' configuration' artifacts' (other, u)
                  = (Inr (), (other1, u1))"
  shows "\<exists>g1 g2 h.
           cd_graph self1 = Some g1 \<and> cd_graph self2 = Some g2 \<and> cd_graph other1 = Some h
         \<and> graph_structure g2 = graph_structure g1
         \<and> assigned_values g2 = assigned_values g1
         \<and> (graph_structure h = graph_structure g1
              \<and> set (cd_inputset other1) = set (cd_inputset self1)
              \<longrightarrow> assigned_values h = assigned_values g1)"
proof -
  from evaluate_returns [OF direct first] obtain g0 b1 g1 sA sB sC where
    in1: "cd_inputset self1 = cd_inputset self @ samples"
    and mb1: "Graph_measure_bounds E g0 (cd_inputset self1) sA = (Inr b1, sB)"
    and ub1: "Graph_update_with_bounds E g0 b1 sB = (Inr g1, sC)"
    and s1: "self1 = self\<lparr>cd_inputset := cd_inputset self1, cd_graph := Some g1\<rparr>"
    by auto
  from spec mb1 have B1: "is_bounds sem (graph_structure g0) (cd_inputset self1) b1"
    unfolding meets_spec_def by blast
  from spec ub1 have A1: "is_assignment sem g0 b1 g1"
    unfolding meets_spec_def by blast
  have st1: "graph_structure g1 = graph_structure g0"
    using A1 by (rule is_assignment_structure)
  have graph1: "cd_graph self1 = Some g1"
    by (subst s1) simp
  have direct1: "\<not> cd_is_direct self1"
    by (subst s1) (simp add: direct)
  from evaluate_returns [OF direct1 second] graph1 obtain b2 g2 tA tB tC where
    in2: "cd_inputset self2 = cd_inputset self1 @ samples"
    and mb2: "Graph_measure_bounds E g1 (cd_inputset self2) tA = (Inr b2, tB)"
    and ub2: "Graph_update_with_bounds E g1 b2 tB = (Inr g2, tC)"
    and s2: "self2 = self1\<lparr>cd_inputset := cd_inputset self2, cd_graph := Some g2\<rparr>"
    by auto
  from spec mb2 have B2: "is_bounds sem (graph_structure g0) (cd_inputset self2) b2"
    unfolding meets_spec_def st1 [symmetric] by blast
  from spec ub2 have A2: "is_assignment sem g1 b2 g2"
    unfolding meets_spec_def by blast
  have "set (cd_inputset self2) = set (cd_inputset self1)"
    by (auto simp: in2 in1)
  from is_bounds_determined [OF B2 B1 this] have b: "b2 = b1" .
  have st2: "graph_structure g2 = graph_structure g1"
    using A2 by (rule is_assignment_structure)
  have graph2: "cd_graph self2 = Some g2"
    by (subst s2) simp
  have values2: "assigned_values g2 = assigned_values g1"
    using A2 A1 st1 unfolding b by (rule is_assignment_determined)
  from evaluate_returns [OF direct' third] obtain h0 c h uA uB uC where
    mb3: "Graph_measure_bounds E h0 (cd_inputset other1) uA = (Inr c, uB)"
    and ub3: "Graph_update_with_bounds E h0 c uB = (Inr h, uC)"
    and s3: "other1 = other\<lparr>cd_inputset := cd_inputset other1, cd_graph := Some h\<rparr>"
    by auto
  from spec mb3 have B3: "is_bounds sem (graph_structure h0) (cd_inputset other1) c"
    unfolding meets_spec_def by blast
  from spec ub3 have A3: "is_assignment sem h0 c h"
    unfolding meets_spec_def by blast
  have st3: "graph_structure h = graph_structure h0"
    using A3 by (rule is_assignment_structure)
  have graph3: "cd_graph other1 = Some h"
    by (subst s3) simp
  have values3: "assigned_values h = assigned_values g1"
    if same: "graph_structure h = graph_structure g1"
      and samples: "set (cd_inputset other1) = set (cd_inputset self1)"
  proof -
    from same st1 st3 have st: "graph_structure h0 = graph_structure g0" by simp
    from B3 have "is_bounds sem (graph_structure g0) (cd_inputset other1) c"
      unfolding st .
    from is_bounds_determined [OF this B1 samples] have "c = b1" .
    with A3 have "is_assignment sem h0 b1 h" by simp
    from this A1 st show ?thesis by (rule is_assignment_determined)
  qed
  from graph1 graph2 graph3 st2 values2 values3 show ?thesis by blast
qed

theorem bit_widths_reproducible_witness:
  "(\<exists>g1 g2 h.
      cd_graph (fst (snd (CircuitDef_evaluate demo_spec_env ''Compiling'' (Some demo_samples)
                            demo_configuration 0
                            (demo_spec_circuit [PyTuple [Obj 1, Obj 2]], [])))) = Some g1
    \<and> cd_graph (fst (snd (act_bind
         (CircuitDef_evaluate demo_spec_env ''Compiling'' (Some demo_samples) demo_configuration 0)
         (\<lambda>_. CircuitDef_evaluate demo_spec_env ''Compiling'' (Some demo_samples)
                 demo_configuration 0)
         (demo_spec_circuit [PyTuple [Obj 1, Obj 2]], [])))) = Some g2
    \<and> cd_graph (fst (snd (CircuitDef_evaluate demo_spec_env ''Tracing''
                            (Some [PyTuple [Obj 1, Obj 2]])
                            (demo_configuration\<lparr>auto_adjust_rounders := True\<rparr>) 5
                            (demo_spec_circuit [PyTuple [Obj 1, Obj 20], PyTuple [Obj 3, Obj 4]],
                             [''earlier''])))) = Some h
    \<and> assigned_values g1 = [(5, False), (5, False), (6, False), (9, False)]
    \<and> assigned_values g2 = assigned_values g1
    \<and> assigned_values h = assigned_values g1)"
proof -
  have direct: "\<not> cd_is_direct (demo_spec_circuit [PyTuple [Obj 1, Obj 2]])"
    and direct': "\<not> cd_is_direct
                     (demo_spec_circuit [PyTuple [Obj 1, Obj 20], PyTuple [Obj 3, Obj 4]])"
    by (simp_all add: demo_spec_circuit_def)
  have both: "act_bind
         (CircuitDef_evaluate demo_spec_env ''Compiling'' (Some demo_samples) demo_configuration 0)
         (\<lambda>_. CircuitDef_evaluate demo_spec_env ''Compiling'' (Some demo_samples)
                 demo_configuration 0)
         (demo_spec_circuit [PyTuple [Obj 1, Obj 2]], [])
      = (Inr (), ((demo_spec_circuit ([PyTuple [Obj 1, Obj 2]] @ demo_samples @ demo_samples))
                    \<lparr>cd_graph := Some (demo_graph [5, 5, 6, 9])\<rparr>,
                  [''trace'', ''fuse'', ''measure_bounds'', ''update_with_bounds'', ''add_graph'',
                   ''measure_bounds'', ''update_with_bounds'', ''add_graph'']))"
    by (simp only: act_bind_def demo_first_run demo_second_run prod.case sum.case)
  from bit_widths_reproducible
         [OF demo_meets_spec direct direct' demo_first_run demo_second_run demo_other_run]
  obtain g1 g2 h where g1: "g1 = demo_graph [5, 5, 6, 9]"
    and g2: "g2 = demo_graph [5, 5, 6, 9]" and h: "h = demo_graph [5, 5, 6, 9]"
    and same: "assigned_values g2 = assigned_values g1"
    and other: "graph_structure h = graph_structure g1
                \<and> set (cd_inputset ((demo_spec_circuit
                       [PyTuple [Obj 1, Obj 20], PyTuple [Obj 3, Obj 4], PyTuple [Obj 1, Obj 2]])
                      \<lparr>cd_graph := Some (demo_graph [5, 5, 6, 9])\<rparr>))
                  = set (cd_inputset ((demo_spec_circuit ([PyTuple [Obj 1, Obj 2]] @ demo_samples))
                      \<lparr>cd_graph := Some (demo_graph [5, 5, 6, 9])\<rparr>))
                \<longrightarrow> assigned_values h = assigned_values g1"
    by auto
  have "set (cd_inputset ((demo_spec_circuit
                       [PyTuple [Obj 1, Obj 20], PyTuple [Obj 3, Obj 4], PyTuple [Obj 1, Obj 2]])
                      \<lparr>cd_graph := Some (demo_graph [5, 5, 6, 9])\<rparr>))
        = set (cd_inputset ((demo_spec_circuit ([PyTuple [Obj 1, Obj 2]] @ demo_samples))
                      \<lparr>cd_graph := Some (demo_graph [5, 5, 6, 9])\<rparr>))"
    by (auto simp: demo_spec_circuit_def demo_samples_def)
  with other g1 h have third: "assigned_values h = assigned_values g1" by simp
  have widths: "assigned_values g1 = [(5, False), (5, False), (6, False), (9, False)]"
    unfolding g1 by (simp add: assigned_values_def demo_graph_def)
  have "cd_graph (fst (snd (CircuitDef_evaluate demo_spec_env ''Compiling'' (Some demo_samples)
                            demo_configuration 0
                            (demo_spec_circuit [PyTuple [Obj 1, Obj 2]], [])))) = Some g1"
    unfolding demo_first_run g1 by simp
  moreover have "cd_graph (fst (snd (act_bind
         (CircuitDef_evaluate demo_spec_env ''Compiling'' (Some demo_samples) demo_configuration 0)
         (\<lambda>_. CircuitDef_evaluate demo_spec_env ''Compiling'' (Some demo_samples)
                 demo_configuration 0)
         (demo_spec_circuit [PyTuple [Obj 1, Obj 2]], [])))) = Some g2"
    unfolding both g2 by simp
  moreover have "cd_graph (fst (snd (CircuitDef_evaluate demo_spec_env ''Tracing''
                            (Some [PyTuple [Obj 1, Obj 2]])
                            (demo_configuration\<lparr>auto_adjust_rounders := True\<rparr>) 5
                            (demo_spec_circuit [PyTuple [Obj 1, Obj 20], PyTuple [Obj 3, Obj 4]],
                             [''earlier''])))) = Some h"
    unfolding demo_other_run h by simp
  ultimately show ?thesis using widths same third by blast
qed

end
